theory Spec2Isabelle
  imports Main "HOL-Library.Sublist"
begin

section \<open>Python values used by the two modules\<close>

text \<open>
  A Python \<^verbatim>\<open>str\<close> is a sequence of Unicode code points; it is modelled as a list of
  natural numbers. \<open>ustr\<close> turns an ASCII literal into such a list, code points beyond
  ASCII are written as numbers (\<open>225\<close> is a-acute, \<open>231\<close> c-cedilla, ...).
\<close>

type_synonym pystr = "nat list"

definition ustr :: "string \<Rightarrow> pystr" where
  "ustr s = map of_char s"

text \<open>A \<^verbatim>\<open>dict\<close> keeps insertion order: an association list, read with \<open>map_of\<close>.\<close>

type_synonym 'v dict = "(pystr \<times> 'v) list"

text \<open>What \<^verbatim>\<open>json.load\<close> puts into the catalog (numbers with a fraction are left out).\<close>

datatype json =
    JNull
  | JBool bool
  | JInt int
  | JStr pystr
  | JList "json list"
  | JObj "(pystr \<times> json) list"

datatype py_error =
    KeyError pystr
  | TypeError
  | AttributeError
  | ValueError
  | IndexError
  | Unmodelled

abbreviation LB :: nat where "LB \<equiv> 123"
abbreviation RB :: nat where "RB \<equiv> 125"

section \<open>String primitives of the Python library\<close>

text \<open>\<^verbatim>\<open>sep.join(xs)\<close>\<close>

fun join_py :: "pystr \<Rightarrow> pystr list \<Rightarrow> pystr" where
  "join_py sep [] = []"
| "join_py sep [x] = x"
| "join_py sep (x # y # ys) = x @ sep @ join_py sep (y # ys)"

text \<open>\<^verbatim>\<open>old in s\<close> for two strings: \<open>old\<close> occurs in \<open>s\<close> as a contiguous block.\<close>

fun contains :: "pystr \<Rightarrow> pystr \<Rightarrow> bool" where
  "contains old [] = (old = [])"
| "contains old (c # cs) = (prefix old (c # cs) \<or> contains old cs)"

text \<open>
  \<^verbatim>\<open>s.replace(old, new)\<close>: the occurrences of \<open>old\<close> are found from left to right,
  without overlap, and the text put in is not looked at again. With an empty \<open>old\<close>,
  Python puts \<open>new\<close> before every code point and at the end.
\<close>

function replace_go :: "pystr \<Rightarrow> pystr \<Rightarrow> pystr \<Rightarrow> pystr" where
  "replace_go old new [] = []"
| "replace_go old new (c # cs) =
     (if old \<noteq> [] \<and> prefix old (c # cs)
      then new @ replace_go old new (drop (length old) (c # cs))
      else c # replace_go old new cs)"
  by pat_completeness auto
termination
  by (relation "measure (\<lambda>(old, new, s). length s)") auto

definition replace_py :: "pystr \<Rightarrow> pystr \<Rightarrow> pystr \<Rightarrow> pystr" where
  "replace_py s old new =
     (if old = [] then new @ concat (map (\<lambda>c. c # new) s) else replace_go old new s)"

text \<open>
  \<^verbatim>\<open>re.findall(r'\{([^}]+)\}', texto)\<close>: at an opening brace the longest run of code
  points other than the closing brace is taken; the match succeeds when the run is not
  empty and a closing brace follows it, and the search goes on behind that brace.
  Otherwise the search goes on at the next code point.
\<close>

function extrair_placeholders :: "pystr \<Rightarrow> pystr list" where
  "extrair_placeholders [] = []"
| "extrair_placeholders (c # cs) =
     (if c = LB \<and> takeWhile (\<lambda>x. x \<noteq> RB) cs \<noteq> [] \<and> dropWhile (\<lambda>x. x \<noteq> RB) cs \<noteq> []
      then takeWhile (\<lambda>x. x \<noteq> RB) cs # extrair_placeholders (tl (dropWhile (\<lambda>x. x \<noteq> RB) cs))
      else extrair_placeholders cs)"
  by pat_completeness auto
termination
proof (relation "measure length")
  fix c :: nat and cs :: pystr
  have "length (tl (dropWhile (\<lambda>x. x \<noteq> RB) cs)) \<le> length (dropWhile (\<lambda>x. x \<noteq> RB) cs)"
    by simp
  also have "\<dots> \<le> length cs"
    by (rule length_dropWhile_le)
  finally show "(tl (dropWhile (\<lambda>x. x \<noteq> RB) cs), c # cs) \<in> measure length"
    by simp
qed auto

section \<open>template\_loader.py\<close>

text \<open>
  The loader holds the catalog read from the JSON file. The functions below take
  \<^verbatim>\<open>self.templates.get('templates', [])\<close> as the list \<open>templates\<close> of template
  dictionaries. \<^verbatim>\<open>str.lower\<close> is Python's (it follows the Unicode tables); it is the
  parameter \<open>lower\<close> of the two lookups, so that what is proved holds for every
  lower-casing function.
\<close>

definition k_nome :: pystr where "k_nome = ustr ''nome''"
definition k_categoria :: pystr where "k_categoria = ustr ''categoria''"
definition k_template :: pystr where "k_template = ustr ''template''"

text \<open>\<^verbatim>\<open>t[key].lower()\<close>: a missing key and a value that is no string both raise.\<close>

definition campo_lower :: "(pystr \<Rightarrow> pystr) \<Rightarrow> json dict \<Rightarrow> pystr \<Rightarrow> py_error + pystr" where
  "campo_lower lower t key =
     (case map_of t key of
        None \<Rightarrow> Inl (KeyError key)
      | Some (JStr s) \<Rightarrow> Inr (lower s)
      | Some _ \<Rightarrow> Inl AttributeError)"

datatype nome_ou_indice = Indice int | Nome pystr

text \<open>The \<^verbatim>\<open>for\<close> loop of \<^verbatim>\<open>obter_template\<close>: the first template whose name matches.\<close>

fun obter_por_nome :: "(pystr \<Rightarrow> pystr) \<Rightarrow> json dict list \<Rightarrow> pystr \<Rightarrow> py_error + json dict option" where
  "obter_por_nome lower [] nome = Inr None"
| "obter_por_nome lower (template # templates) nome =
     (case campo_lower lower template k_nome of
        Inl e \<Rightarrow> Inl e
      | Inr n \<Rightarrow> if n = lower nome then Inr (Some template)
                 else obter_por_nome lower templates nome)"

definition obter_template ::
  "(pystr \<Rightarrow> pystr) \<Rightarrow> json dict list \<Rightarrow> nome_ou_indice \<Rightarrow> py_error + json dict option" where
  "obter_template lower templates key =
     (case key of
        Indice i \<Rightarrow>
          if 0 \<le> i \<and> i < int (length templates) then Inr (Some (templates ! nat i))
          else Inr None
      | Nome nome \<Rightarrow> obter_por_nome lower templates nome)"

text \<open>The list comprehension of \<^verbatim>\<open>obter_template_por_categoria\<close>.\<close>

fun obter_template_por_categoria ::
  "(pystr \<Rightarrow> pystr) \<Rightarrow> json dict list \<Rightarrow> pystr \<Rightarrow> py_error + json dict list" where
  "obter_template_por_categoria lower [] categoria = Inr []"
| "obter_template_por_categoria lower (t # ts) categoria =
     (case campo_lower lower t k_categoria of
        Inl e \<Rightarrow> Inl e
      | Inr c \<Rightarrow>
          (case obter_template_por_categoria lower ts categoria of
             Inl e \<Rightarrow> Inl e
           | Inr r \<Rightarrow> Inr (if c = lower categoria then t # r else r)))"

definition template_invalido :: pystr where
  "template_invalido = ustr ''Template inv'' @ [225] @ ustr ''lido.''"

definition valores_faltantes_msg :: pystr where
  "valores_faltantes_msg = ustr ''Valores faltantes: ''"

text \<open>
  The \<^verbatim>\<open>for chave, valor in valores.items()\<close> loop of \<^verbatim>\<open>preencher_template\<close>: one
  \<^verbatim>\<open>replace\<close> after the other, in the order of the dictionary, each on the text the
  one before has produced.
\<close>

fun substituir_valores :: "pystr dict \<Rightarrow> pystr \<Rightarrow> pystr" where
  "substituir_valores [] prompt_preenchido = prompt_preenchido"
| "substituir_valores ((chave, valor) # valores) prompt_preenchido =
     (let placeholder = [LB] @ chave @ [RB]
      in substituir_valores valores
           (if contains placeholder prompt_preenchido
            then replace_py prompt_preenchido placeholder valor
            else prompt_preenchido))"

text \<open>
  \<^verbatim>\<open>preencher_template\<close>. The template is a dictionary or \<^verbatim>\<open>None\<close> (what
  \<^verbatim>\<open>obter_template\<close> returns); \<^verbatim>\<open>not template\<close> holds for \<^verbatim>\<open>None\<close> and for the empty
  dictionary. The values are texts. \<^verbatim>\<open>re.findall\<close> raises on a format that is no string.
\<close>

definition preencher_template :: "json dict option \<Rightarrow> pystr dict \<Rightarrow> py_error + pystr" where
  "preencher_template template valores =
     (case template of
        None \<Rightarrow> Inr template_invalido
      | Some t \<Rightarrow>
          if t = [] \<or> map_of t k_template = None then Inr template_invalido
          else (case map_of t k_template of
                  Some (JStr prompt_template) \<Rightarrow>
                    (let placeholders = extrair_placeholders prompt_template;
                         valores_faltantes = filter (\<lambda>p. p \<notin> fst ` set valores) placeholders
                     in if valores_faltantes \<noteq> []
                        then Inr (valores_faltantes_msg @ join_py (ustr '', '') valores_faltantes)
                        else Inr (substituir_valores valores prompt_template))
                | _ \<Rightarrow> Inl TypeError))"

section \<open>What the specification says about filling\<close>

text \<open>
  The template with every placeholder replaced at once: the text is read as
  \<^verbatim>\<open>re.findall\<close> reads it, a placeholder bound by \<open>m\<close> gives its value, any other
  one stays as it is written. Nothing that has been put in is read again.
\<close>

function fill_spec :: "(pystr \<rightharpoonup> pystr) \<Rightarrow> pystr \<Rightarrow> pystr" where
  "fill_spec m [] = []"
| "fill_spec m (c # cs) =
     (if c = LB \<and> takeWhile (\<lambda>x. x \<noteq> RB) cs \<noteq> [] \<and> dropWhile (\<lambda>x. x \<noteq> RB) cs \<noteq> []
      then (case m (takeWhile (\<lambda>x. x \<noteq> RB) cs) of
              Some v \<Rightarrow> v
            | None \<Rightarrow> LB # takeWhile (\<lambda>x. x \<noteq> RB) cs @ [RB])
           @ fill_spec m (tl (dropWhile (\<lambda>x. x \<noteq> RB) cs))
      else c # fill_spec m cs)"
  by pat_completeness auto
termination
proof (relation "measure (\<lambda>(m, s). length s)")
  fix m :: "pystr \<rightharpoonup> pystr" and c :: nat and cs :: pystr
  have "length (tl (dropWhile (\<lambda>x. x \<noteq> RB) cs)) \<le> length (dropWhile (\<lambda>x. x \<noteq> RB) cs)"
    by simp
  also have "\<dots> \<le> length cs"
    by (rule length_dropWhile_le)
  finally show "((m, tl (dropWhile (\<lambda>x. x \<noteq> RB) cs)), (m, c # cs)) \<in> measure (\<lambda>(m, s). length s)"
    by simp
qed auto

text \<open>A placeholder name as the specification has it: not empty, no brace inside.\<close>

definition plain_name :: "pystr \<Rightarrow> bool" where
  "plain_name k \<longleftrightarrow> k \<noteq> [] \<and> LB \<notin> set k \<and> RB \<notin> set k"

text \<open>Every opening brace of the text has a closing brace somewhere behind it.\<close>

fun braces_closed :: "pystr \<Rightarrow> bool" where
  "braces_closed [] = True"
| "braces_closed (c # cs) = ((c = LB \<longrightarrow> RB \<in> set cs) \<and> braces_closed cs)"

text \<open>No placeholder of the text has an opening brace in its name.\<close>

definition plain_tokens :: "pystr \<Rightarrow> bool" where
  "plain_tokens s \<longleftrightarrow> list_all (\<lambda>n. LB \<notin> set n) (extrair_placeholders s)"

text \<open>
  What an entry of the mapping puts into the text in the end, when the entries are
  applied one after the other: its value, filled by the entries that come after it.
  An entry that comes before it, and the entry itself, do not touch that value.
\<close>

fun effective_values :: "pystr dict \<Rightarrow> (pystr \<rightharpoonup> pystr)" where
  "effective_values [] = Map.empty"
| "effective_values ((k, v) # valores) =
     (let m = effective_values valores in m(k \<mapsto> fill_spec m v))"

text \<open>
  The missing names as the specification lists them: the placeholders without a value,
  each one once, in the order of their first occurrence.
\<close>

definition missing_spec :: "pystr \<Rightarrow> pystr dict \<Rightarrow> pystr list" where
  "missing_spec template valores =
     rev (remdups (rev (filter (\<lambda>p. p \<notin> fst ` set valores) (extrair_placeholders template))))"

text \<open>
  \<^verbatim>\<open>str.lower\<close> on the code points up to 255 (Basic Latin and Latin-1), where it maps
  code point by code point; the concrete inputs below stay in that range.
\<close>

definition lower_latin1 :: "pystr \<Rightarrow> pystr" where
  "lower_latin1 s =
     map (\<lambda>c. if (65 \<le> c \<and> c \<le> 90) \<or> (192 \<le> c \<and> c \<le> 222 \<and> c \<noteq> 215) then c + 32 else c) s"


section \<open>prompt\_optimizer.py\<close>

subsection \<open>\<^verbatim>\<open>str.format\<close>, \<^verbatim>\<open>str.split\<close>\<close>

text \<open>
  \<^verbatim>\<open>template.format(**kwargs)\<close>, read from left to right. A doubled brace is a brace;
  an opening brace starts a field that runs to the next closing brace, and the field's
  name is looked up among the keyword arguments (\<^verbatim>\<open>KeyError\<close> when it is absent). A
  brace on its own is a \<^verbatim>\<open>ValueError\<close>; an empty or numbered field asks for a
  positional argument, and there is none. Conversions, format specifications,
  attributes and indices (a field with one of \<^verbatim>\<open>! : . [\<close> or an opening brace in it)
  occur in no format string of the module and are answered with \<open>Unmodelled\<close>. The
  first failure from the left is the one raised. The values are texts.
\<close>

definition emit :: "pystr \<Rightarrow> py_error + pystr \<Rightarrow> py_error + pystr" where
  "emit v r = (case r of Inl e \<Rightarrow> Inl e | Inr s \<Rightarrow> Inr (v @ s))"

definition campo_especial :: "nat \<Rightarrow> bool" where
  "campo_especial c \<longleftrightarrow> c = LB \<or> c = 33 \<or> c = 58 \<or> c = 46 \<or> c = 91"

definition digito :: "nat \<Rightarrow> bool" where
  "digito c \<longleftrightarrow> 48 \<le> c \<and> c \<le> 57"

fun format_go :: "pystr dict \<Rightarrow> pystr option \<Rightarrow> pystr \<Rightarrow> py_error + pystr" where
  "format_go kwargs None [] = Inr []"
| "format_go kwargs (Some campo) [] = Inl ValueError"
| "format_go kwargs None (c # cs) =
     (if c = LB then
        (case cs of
           [] \<Rightarrow> Inl ValueError
         | d # ds \<Rightarrow> if d = LB then emit [LB] (format_go kwargs None ds)
                     else format_go kwargs (Some []) cs)
      else if c = RB then
        (case cs of
           [] \<Rightarrow> Inl ValueError
         | d # ds \<Rightarrow> if d = RB then emit [RB] (format_go kwargs None ds)
                     else Inl ValueError)
      else emit [c] (format_go kwargs None cs))"
| "format_go kwargs (Some campo) (c # cs) =
     (if c = RB then
        (if campo = [] \<or> list_all digito campo then Inl IndexError
         else (case map_of kwargs (rev campo) of
                 None \<Rightarrow> Inl (KeyError (rev campo))
               | Some valor \<Rightarrow> emit valor (format_go kwargs None cs)))
      else if campo_especial c then Inl Unmodelled
      else format_go kwargs (Some (c # campo)) cs)"

definition format_py :: "pystr \<Rightarrow> pystr dict \<Rightarrow> py_error + pystr" where
  "format_py template kwargs = format_go kwargs None template"

text \<open>
  \<^verbatim>\<open>str.isspace\<close> of one code point (the white space of Unicode: the ASCII controls
  9 to 13 and 28 to 31, the space, NEL, the no-break space and the spaces from U+1680 on).
\<close>

definition isspace :: "nat \<Rightarrow> bool" where
  "isspace c \<longleftrightarrow>
     (9 \<le> c \<and> c \<le> 13) \<or> (28 \<le> c \<and> c \<le> 32) \<or> c = 133 \<or> c = 160 \<or> c = 5760
     \<or> (8192 \<le> c \<and> c \<le> 8202) \<or> c = 8232 \<or> c = 8233 \<or> c = 8239 \<or> c = 8287
     \<or> c = 12288"

text \<open>
  \<^verbatim>\<open>s.split()\<close>: the maximal runs of code points that are not white space. \<open>palavra\<close>
  holds the run being read, last code point first.
\<close>

fun split_go :: "pystr \<Rightarrow> pystr \<Rightarrow> pystr list" where
  "split_go palavra [] = (if palavra = [] then [] else [rev palavra])"
| "split_go palavra (c # cs) =
     (if isspace c
      then (if palavra = [] then split_go [] cs else rev palavra # split_go [] cs)
      else split_go (c # palavra) cs)"

definition split_py :: "pystr \<Rightarrow> pystr list" where
  "split_py s = split_go [] s"

text \<open>\<^verbatim>\<open>s.split('\n')\<close>: the pieces between line feeds, never an empty list.\<close>

fun split_linhas :: "pystr \<Rightarrow> pystr list" where
  "split_linhas [] = [[]]"
| "split_linhas (c # cs) =
     (if c = 10 then [] # split_linhas cs
      else (case split_linhas cs of
              [] \<Rightarrow> [[c]]
            | l # ls \<Rightarrow> (c # l) # ls))"

subsection \<open>The constants of \<^verbatim>\<open>PromptOptimizer\<close>\<close>

definition tipo_criativo :: pystr where
  "tipo_criativo = ustr ''criativo''"

definition tipo_tecnico :: pystr where
  "tipo_tecnico = ustr ''t'' @ [233] @ ustr ''cnico''"

definition tipo_analise :: pystr where
  "tipo_analise = ustr ''an'' @ [225] @ ustr ''lise''"

definition tipo_instrucao :: pystr where
  "tipo_instrucao = ustr ''instru'' @ [231, 227] @ ustr ''o''"

definition tipo_pesquisa :: pystr where
  "tipo_pesquisa = ustr ''pesquisa''"

definition template_criativo :: pystr where
  "template_criativo = ustr ''Atue como {persona}. {contexto} Crie {output_type} sobre {tema} com {estilo}.''"

definition template_tecnico :: pystr where
  "template_tecnico = ustr ''Voc'' @ [234] @ ustr '' '' @ [233] @ ustr '' um especialista em {'' @ [225] @ ustr ''rea}. {contexto} Explique {conceito} com {n'' @ [237] @ ustr ''vel_detalhe}.''"

definition template_analise :: pystr where
  "template_analise = ustr ''Como {persona}, analise {objeto_an'' @ [225] @ ustr ''lise}. {contexto} Forne'' @ [231] @ ustr ''a {tipo_an'' @ [225] @ ustr ''lise} considerando {aspectos}.''"

definition template_instrucao :: pystr where
  "template_instrucao = ustr ''Atue como {persona}. {contexto} Forne'' @ [231] @ ustr ''a instru'' @ [231, 245] @ ustr ''es detalhadas sobre como {tarefa}, considerando {considera'' @ [231, 245] @ ustr ''es}.''"

definition template_pesquisa :: pystr where
  "template_pesquisa = ustr ''Como pesquisador em {'' @ [225] @ ustr ''rea}, {contexto} Investigue {t'' @ [243] @ ustr ''pico} e forne'' @ [231] @ ustr ''a {tipo_resultado} focando em {aspectos}.''"

definition templates :: "pystr dict" where
  "templates = [(tipo_criativo, template_criativo),
     (tipo_tecnico, template_tecnico),
     (tipo_analise, template_analise),
     (tipo_instrucao, template_instrucao),
     (tipo_pesquisa, template_pesquisa)]"

definition nivel_basico :: pystr where
  "nivel_basico = ustr ''b'' @ [225] @ ustr ''sico''"

definition nivel_detalhado :: pystr where
  "nivel_detalhado = ustr ''detalhado''"

definition nivel_avancado :: pystr where
  "nivel_avancado = ustr ''avan'' @ [231] @ ustr ''ado''"

definition estrutura_basico :: pystr where
  "estrutura_basico = ustr ''{instru'' @ [231, 227] @ ustr ''o}''"

definition estrutura_detalhado :: pystr where
  "estrutura_detalhado = ustr ''{instru'' @ [231, 227] @ ustr ''o}'' @ [10, 10] @ ustr ''Contexto: {contexto}'' @ [10] @ ustr ''Objetivo: {objetivo}'' @ [10] @ ustr ''Formato desejado: {formato}''"

definition estrutura_avancado :: pystr where
  "estrutura_avancado = ustr ''# TAREFA'' @ [10] @ ustr ''{instru'' @ [231, 227] @ ustr ''o}'' @ [10, 10] @ ustr ''# CONTEXTO'' @ [10] @ ustr ''{contexto}'' @ [10, 10] @ ustr ''# OBJETIVO'' @ [10] @ ustr ''{objetivo}'' @ [10, 10] @ ustr ''# FORMATO'' @ [10] @ ustr ''{formato}'' @ [10, 10] @ ustr ''# RESTRI'' @ [199, 213] @ ustr ''ES'' @ [10] @ ustr ''{restri'' @ [231, 245] @ ustr ''es}'' @ [10, 10] @ ustr ''# EXEMPLOS'' @ [10] @ ustr ''{exemplos}''"

definition estrutura_prompt :: "pystr dict" where
  "estrutura_prompt = [(nivel_basico, estrutura_basico),
     (nivel_detalhado, estrutura_detalhado),
     (nivel_avancado, estrutura_avancado)]"

definition k_instrucao :: pystr where
  "k_instrucao = ustr ''instru'' @ [231, 227] @ ustr ''o''"

definition k_contexto :: pystr where
  "k_contexto = ustr ''contexto''"

definition k_objetivo :: pystr where
  "k_objetivo = ustr ''objetivo''"

definition k_formato :: pystr where
  "k_formato = ustr ''formato''"

definition k_restricoes :: pystr where
  "k_restricoes = ustr ''restri'' @ [231, 245] @ ustr ''es''"

definition k_exemplos :: pystr where
  "k_exemplos = ustr ''exemplos''"

definition contexto_padrao :: pystr where
  "contexto_padrao = ustr ''Considere o contexto atual e as melhores pr'' @ [225] @ ustr ''ticas.''"

definition objetivo_padrao :: pystr where
  "objetivo_padrao = ustr ''Fornecer informa'' @ [231, 227] @ ustr ''o clara, precisa e '' @ [250] @ ustr ''til.''"

definition formato_padrao :: pystr where
  "formato_padrao = ustr ''Texto estruturado com par'' @ [225] @ ustr ''grafos l'' @ [243] @ ustr ''gicos e pontos principais destacados.''"

definition restricoes_padrao :: pystr where
  "restricoes_padrao = ustr ''Mantenha a resposta concisa e focada no objetivo.''"

definition exemplos_padrao :: pystr where
  "exemplos_padrao = ustr ''Exemplo 1: [Breve exemplo relacionado]''"

definition tipo_invalido_msg :: pystr where
  "tipo_invalido_msg = ustr ''Tipo inv'' @ [225] @ ustr ''lido. Tipos dispon'' @ [237] @ ustr ''veis: ''"

definition parametros_faltantes_msg :: pystr where
  "parametros_faltantes_msg = ustr ''Par'' @ [226] @ ustr ''metros faltantes: ''"

definition nivel_invalido_msg :: pystr where
  "nivel_invalido_msg = ustr ''N'' @ [237] @ ustr ''vel inv'' @ [225] @ ustr ''lido. N'' @ [237] @ ustr ''veis dispon'' @ [237] @ ustr ''veis: ''"

definition expansao_sufixo :: pystr where
  "expansao_sufixo = [10, 10] @ ustr ''Por favor, forne'' @ [231] @ ustr ''a uma resposta detalhada e estruturada. Inclua exemplos relevantes e passos concretos quando aplic'' @ [225] @ ustr ''vel. Considere diferentes perspectivas e contextos.''"

definition instrucao_titulo :: pystr where
  "instrucao_titulo = ustr ''# INSTRU'' @ [199, 195] @ ustr ''O'' @ [10]"

definition formato_desejado :: pystr where
  "formato_desejado = [10, 10] @ ustr ''# FORMATO DESEJADO'' @ [10] @ ustr ''- Comece com uma introdu'' @ [231, 227] @ ustr ''o concisa'' @ [10] @ ustr ''- Organize a informa'' @ [231, 227] @ ustr ''o em se'' @ [231, 245] @ ustr ''es claras'' @ [10] @ ustr ''- Utilize bullets para pontos importantes'' @ [10] @ ustr ''- Conclua com um resumo aplic'' @ [225] @ ustr ''vel'' @ [10] @ ustr ''- Use linguagem precisa e exemplos quando necess'' @ [225] @ ustr ''rio''"

definition objetivo_principal_titulo :: pystr where
  "objetivo_principal_titulo = ustr ''# OBJETIVO PRINCIPAL'' @ [10]"

definition contexto_titulo :: pystr where
  "contexto_titulo = [10, 10] @ ustr ''# CONTEXTO'' @ [10]"

definition contexto_refinado :: pystr where
  "contexto_refinado = ustr ''Entendendo o contexto completo fornecido''"

definition parametros_qualidade :: pystr where
  "parametros_qualidade = [10, 10] @ ustr ''# PAR'' @ [194] @ ustr ''METROS DE QUALIDADE'' @ [10] @ ustr ''1. Precis'' @ [227] @ ustr ''o: Forne'' @ [231] @ ustr ''a informa'' @ [231, 245] @ ustr ''es corretas e verific'' @ [225] @ ustr ''veis'' @ [10] @ ustr ''2. Relev'' @ [226] @ ustr ''ncia: Mantenha o foco no objetivo principal'' @ [10] @ ustr ''3. Estrutura: Organize a resposta de forma l'' @ [243] @ ustr ''gica'' @ [10] @ ustr ''4. Profundidade: Equilibre detalhes suficientes sem prolixidade'' @ [10] @ ustr ''5. Clareza: Use linguagem simples e direta'' @ [10, 10]"

definition prompt_original_titulo :: pystr where
  "prompt_original_titulo = ustr ''# PROMPT ORIGINAL'' @ [10]"

subsection \<open>The methods\<close>

text \<open>
  \<^verbatim>\<open>gerar_prompt_basico\<close>: only the \<^verbatim>\<open>KeyError\<close> of \<^verbatim>\<open>format\<close> is caught.
\<close>

definition gerar_prompt_basico :: "pystr \<Rightarrow> pystr dict \<Rightarrow> py_error + pystr" where
  "gerar_prompt_basico tipo kwargs =
     (case map_of templates tipo of
        None \<Rightarrow> Inr (tipo_invalido_msg @ join_py (ustr '', '') (map fst templates))
      | Some template \<Rightarrow>
          (case format_py template kwargs of
             Inl (KeyError e) \<Rightarrow>
               Inr (parametros_faltantes_msg
                    @ join_py (ustr '', '') (extrair_placeholders template))
           | r \<Rightarrow> r))"

definition expandir_prompt :: "pystr \<Rightarrow> pystr" where
  "expandir_prompt prompt = prompt @ expansao_sufixo"

definition estruturar_prompt :: "pystr \<Rightarrow> pystr" where
  "estruturar_prompt prompt = instrucao_titulo @ prompt @ formato_desejado"

definition refinar_prompt :: "pystr \<Rightarrow> pystr" where
  "refinar_prompt prompt =
     (let linhas = split_linhas prompt;
          instrucao = (case linhas of [] \<Rightarrow> prompt | l # _ \<Rightarrow> l);
          contexto = contexto_refinado
      in objetivo_principal_titulo @ instrucao @ contexto_titulo @ contexto
         @ parametros_qualidade @ prompt_original_titulo @ prompt)"

definition otimizar_prompt :: "pystr \<Rightarrow> pystr" where
  "otimizar_prompt prompt_original =
     (let palavras = length (split_py prompt_original)
      in if palavras < 10 then expandir_prompt prompt_original
         else if palavras < 30 then estruturar_prompt prompt_original
         else refinar_prompt prompt_original)"

text \<open>
  \<^verbatim>\<open>gerar_prompt_estruturado\<close>: the five \<^verbatim>\<open>if\<close> statements first, in the order of the
  source, then \<^verbatim>\<open>format\<close> with the six keyword arguments.
\<close>

definition gerar_prompt_estruturado ::
  "pystr \<Rightarrow> pystr \<Rightarrow> pystr \<Rightarrow> pystr \<Rightarrow> pystr \<Rightarrow> pystr \<Rightarrow> pystr \<Rightarrow> py_error + pystr" where
  "gerar_prompt_estruturado nivel instrucao contexto objetivo formato restricoes exemplos =
     (case map_of estrutura_prompt nivel of
        None \<Rightarrow> Inr (nivel_invalido_msg @ join_py (ustr '', '') (map fst estrutura_prompt))
      | Some template \<Rightarrow>
          (let contexto = (if contexto = [] \<and> nivel \<noteq> nivel_basico
                           then contexto_padrao else contexto);
               objetivo = (if objetivo = [] \<and> nivel \<noteq> nivel_basico
                           then objetivo_padrao else objetivo);
               formato = (if formato = [] \<and> nivel \<noteq> nivel_basico
                          then formato_padrao else formato);
               restricoes = (if restricoes = [] \<and> nivel = nivel_avancado
                             then restricoes_padrao else restricoes);
               exemplos = (if exemplos = [] \<and> nivel = nivel_avancado
                           then exemplos_padrao else exemplos)
           in format_py template
                [(k_instrucao, instrucao), (k_contexto, contexto), (k_objetivo, objetivo),
                 (k_formato, formato), (k_restricoes, restricoes), (k_exemplos, exemplos)]))"

section \<open>Concrete inputs\<close>

text \<open>A catalog of two templates, as the JSON file gives them.\<close>

definition catalogo_exemplo :: "json dict list" where
  "catalogo_exemplo =
     [[(k_nome, JStr (ustr ''Resumo'')), (k_categoria, JStr (ustr ''T'' @ [233] @ ustr ''cnico'')),
       (k_template, JStr (ustr ''Resuma {texto}''))],
      [(k_nome, JStr (ustr ''Ideias'')), (k_categoria, JStr (ustr ''Criativo'')),
       (k_template, JStr (ustr ''Liste ideias sobre {tema}''))]]"

text \<open>Texts of 9, 10, 29 and 30 words.\<close>

definition palavras_9 :: "pystr list" where
  "palavras_9 = [ustr ''Me'', ustr ''d'' @ [234], ustr ''ideias'', ustr ''para'', ustr ''um'',
                 ustr ''aplicativo'', ustr ''mobile'', ustr ''de'', ustr ''receitas.'']"

definition texto_9 :: pystr where
  "texto_9 = ustr ''Me d'' @ [234] @ ustr '' ideias para um aplicativo mobile de receitas.''"

definition texto_10 :: pystr where
  "texto_10 = ustr ''Me d'' @ [234] @ ustr '' boas ideias para um aplicativo mobile de receitas.''"

definition texto_29 :: pystr where
  "texto_29 = ustr ''a b c d e f g h i j k l m n o p q r s t u v w x y z a b c''"

definition texto_30 :: pystr where
  "texto_30 = ustr ''a b c d e f g h i j k l m n o p q r s t u v w x y z a b c d''"

section \<open>Lemmas on the string primitives\<close>

lemma replace_go_no_prefix:
  "\<not> prefix old (c # cs) \<Longrightarrow> replace_go old new (c # cs) = c # replace_go old new cs"
  by simp

lemma replace_go_skip:
  "LB \<notin> set xs \<Longrightarrow> replace_go (LB # old) new (xs @ ys) = xs @ replace_go (LB # old) new ys"
  by (induction xs) auto

lemma extrair_skip: "LB \<notin> set xs \<Longrightarrow> extrair_placeholders (xs @ ys) = extrair_placeholders ys"
  by (induction xs) auto

lemma fill_spec_skip: "LB \<notin> set xs \<Longrightarrow> fill_spec m (xs @ ys) = xs @ fill_spec m ys"
  by (induction xs) auto

lemma extrair_no_RB: "RB \<notin> set cs \<Longrightarrow> extrair_placeholders cs = []"
  by (induction cs) auto

lemma fill_spec_no_RB: "RB \<notin> set cs \<Longrightarrow> fill_spec m cs = cs"
  by (induction cs) auto

text \<open>The shape of the text at a match.\<close>

lemma token_shape:
  assumes "dropWhile (\<lambda>x. x \<noteq> RB) cs \<noteq> []"
  shows "cs = takeWhile (\<lambda>x. x \<noteq> RB) cs @ RB # tl (dropWhile (\<lambda>x. x \<noteq> RB) cs)"
proof -
  from assms have "hd (dropWhile (\<lambda>x. x \<noteq> RB) cs) = RB"
    using hd_dropWhile [of "\<lambda>x. x \<noteq> RB" cs] by simp
  with assms have "dropWhile (\<lambda>x. x \<noteq> RB) cs = RB # tl (dropWhile (\<lambda>x. x \<noteq> RB) cs)"
    by (cases "dropWhile (\<lambda>x. x \<noteq> RB) cs") auto
  then show ?thesis
    using takeWhile_dropWhile_id [of "\<lambda>x. x \<noteq> RB" cs] by simp
qed

lemma takeWhile_token: "RB \<notin> set n \<Longrightarrow> takeWhile (\<lambda>x. x \<noteq> RB) (n @ RB # r) = n"
  by (induction n) auto

lemma dropWhile_token: "RB \<notin> set n \<Longrightarrow> dropWhile (\<lambda>x. x \<noteq> RB) (n @ RB # r) = RB # r"
  by (induction n) auto

lemma prefix_token:
  assumes "RB \<notin> set k" "RB \<notin> set n" "prefix (k @ [RB]) (n @ RB # r)"
  shows "k = n"
proof -
  from assms(3) obtain z where "n @ RB # r = k @ RB # z"
    by (auto simp: prefix_def)
  then have "takeWhile (\<lambda>x. x \<noteq> RB) (n @ RB # r) = takeWhile (\<lambda>x. x \<noteq> RB) (k @ RB # z)"
    by simp
  with assms(1,2) show ?thesis
    by (simp add: takeWhile_token)
qed

lemma no_prefix_at_stray:
  assumes "plain_name k"
    and "takeWhile (\<lambda>x. x \<noteq> RB) cs = [] \<or> dropWhile (\<lambda>x. x \<noteq> RB) cs = []"
  shows "\<not> prefix (k @ [RB]) cs"
proof
  assume p: "prefix (k @ [RB]) cs"
  then obtain z where cs: "cs = k @ RB # z"
    by (auto simp: prefix_def)
  from assms(1) have "RB \<notin> set k" "k \<noteq> []"
    by (auto simp: plain_name_def)
  then have "takeWhile (\<lambda>x. x \<noteq> RB) cs = k" "dropWhile (\<lambda>x. x \<noteq> RB) cs = RB # z"
    unfolding cs by (simp_all add: takeWhile_token dropWhile_token)
  with assms(2) \<open>k \<noteq> []\<close> show False by auto
qed

lemma fill_spec_stray:
  "\<not> (c = LB \<and> takeWhile (\<lambda>x. x \<noteq> RB) cs \<noteq> [] \<and> dropWhile (\<lambda>x. x \<noteq> RB) cs \<noteq> [])
   \<Longrightarrow> fill_spec m (c # cs) = c # fill_spec m cs"
  by auto

lemma fill_spec_token:
  "takeWhile (\<lambda>x. x \<noteq> RB) cs \<noteq> [] \<Longrightarrow> dropWhile (\<lambda>x. x \<noteq> RB) cs \<noteq> []
   \<Longrightarrow> fill_spec m (LB # cs) =
       (case m (takeWhile (\<lambda>x. x \<noteq> RB) cs) of Some v \<Rightarrow> v
        | None \<Rightarrow> LB # takeWhile (\<lambda>x. x \<noteq> RB) cs @ [RB])
       @ fill_spec m (tl (dropWhile (\<lambda>x. x \<noteq> RB) cs))"
  by simp

lemma replace_go_fill_spec_gen:
  assumes k: "plain_name k" and mk: "m k = Some v" and mn: "\<And>n. n \<noteq> k \<Longrightarrow> m n = None"
  shows "plain_tokens s \<Longrightarrow> replace_go (LB # k @ [RB]) v s = fill_spec m s"
proof (induction s rule: extrair_placeholders.induct)
  case 1
  show ?case by simp
next
  case (2 c cs)
  let ?name = "takeWhile (\<lambda>x. x \<noteq> RB) cs"
  let ?rest = "dropWhile (\<lambda>x. x \<noteq> RB) cs"
  let ?old = "LB # k @ [RB]"
  from k have kRB: "RB \<notin> set k" by (simp add: plain_name_def)
  show ?case
  proof (cases "c = LB \<and> ?name \<noteq> [] \<and> ?rest \<noteq> []")
    case True
    then have c: "c = LB" and name: "?name \<noteq> []" and rest: "?rest \<noteq> []"
      by simp_all
    from rest have cs: "cs = ?name @ RB # tl ?rest"
      by (rule token_shape)
    have nRB: "RB \<notin> set ?name"
      by (auto dest: set_takeWhileD)
    from True "2.prems" have nLB: "LB \<notin> set ?name" and pt: "plain_tokens (tl ?rest)"
      by (auto simp: plain_tokens_def list_all_iff)
    from True pt have IH: "replace_go ?old v (tl ?rest) = fill_spec m (tl ?rest)"
      by (intro "2.IH"(1)) auto
    show ?thesis
    proof (cases "?name = k")
      case same: True
      have "prefix ?old (c # cs)"
        using c same by (subst cs) (simp add: prefix_def)
      moreover have "drop (length ?old) (c # cs) = tl ?rest"
        using same by (subst cs) simp
      ultimately have "replace_go ?old v (c # cs) = v @ replace_go ?old v (tl ?rest)"
        by simp
      moreover have "fill_spec m (c # cs) = v @ fill_spec m (tl ?rest)"
        unfolding c fill_spec_token [OF name rest] using same mk by simp
      ultimately show ?thesis
        using IH by (simp only:)
    next
      case diff: False
      have "\<not> prefix (k @ [RB]) cs"
      proof
        assume "prefix (k @ [RB]) cs"
        then have "prefix (k @ [RB]) (?name @ RB # tl ?rest)"
          using cs by simp
        from prefix_token [OF kRB nRB this] diff show False by simp
      qed
      then have "\<not> prefix ?old (c # cs)"
        by simp
      then have "replace_go ?old v (c # cs) = c # replace_go ?old v cs"
        by (rule replace_go_no_prefix)
      also have "replace_go ?old v cs = replace_go ?old v (?name @ RB # tl ?rest)"
        using cs by simp
      also have "\<dots> = ?name @ replace_go ?old v (RB # tl ?rest)"
        using nLB by (rule replace_go_skip)
      also have "replace_go ?old v (RB # tl ?rest) = RB # replace_go ?old v (tl ?rest)"
        by simp
      finally have a: "replace_go ?old v (c # cs) = LB # ?name @ RB # fill_spec m (tl ?rest)"
        using c IH by simp
      have b: "fill_spec m (c # cs) = LB # ?name @ RB # fill_spec m (tl ?rest)"
        unfolding c fill_spec_token [OF name rest] using mn [OF diff] by simp
      show ?thesis by (simp only: a b)
    qed
  next
    case False
    from False "2.prems" have "plain_tokens cs"
      by (auto simp: plain_tokens_def list_all_iff)
    with False have IH: "replace_go ?old v cs = fill_spec m cs"
      by (intro "2.IH"(2)) auto
    have "\<not> prefix ?old (c # cs)"
    proof (cases "c = LB")
      case True
      with False have "?name = [] \<or> ?rest = []" by blast
      from no_prefix_at_stray [OF k this] show ?thesis by simp
    next
      case False
      then show ?thesis by simp
    qed
    then have "replace_go ?old v (c # cs) = c # replace_go ?old v cs"
      by (rule replace_go_no_prefix)
    then show ?thesis
      unfolding fill_spec_stray [OF False] IH .
  qed
qed

lemma replace_go_fill_spec:
  "plain_name k \<Longrightarrow> plain_tokens s \<Longrightarrow> replace_go (LB # k @ [RB]) v s = fill_spec [k \<mapsto> v] s"
  by (rule replace_go_fill_spec_gen) simp_all


lemma contains_prefix: "contains old s \<longleftrightarrow> (\<exists>ps ss. s = ps @ old @ ss)"
proof (induction s)
  case Nil
  then show ?case by simp
next
  case (Cons c cs)
  show ?case
  proof
    assume "contains old (c # cs)"
    then consider "prefix old (c # cs)" | "contains old cs" by auto
    then show "\<exists>ps ss. c # cs = ps @ old @ ss"
    proof cases
      case 1
      then obtain ss where "c # cs = [] @ old @ ss" by (auto simp: prefix_def)
      then show ?thesis by blast
    next
      case 2
      with Cons obtain ps ss where "cs = ps @ old @ ss" by auto
      then have "c # cs = (c # ps) @ old @ ss" by simp
      then show ?thesis by blast
    qed
  next
    assume "\<exists>ps ss. c # cs = ps @ old @ ss"
    then obtain ps ss where e: "c # cs = ps @ old @ ss" by auto
    show "contains old (c # cs)"
    proof (cases ps)
      case Nil
      with e have "prefix old (c # cs)" by (simp add: prefix_def)
      then show ?thesis by simp
    next
      case (Cons p ps')
      with e have "cs = ps' @ old @ ss" by simp
      with Cons.IH have "contains old cs" by blast
      then show ?thesis by simp
    qed
  qed
qed

lemma replace_go_absent: "\<not> contains old s \<Longrightarrow> replace_go old new s = s"
  by (induction s) auto

lemma braces_closed_no_LB: "LB \<notin> set v \<Longrightarrow> braces_closed v"
  by (induction v) auto

lemma braces_closed_append: "braces_closed (xs @ ys) \<Longrightarrow> braces_closed ys"
  by (induction xs) auto

lemma braces_closed_tl_rest:
  assumes "braces_closed cs"
  shows "braces_closed (tl (dropWhile (\<lambda>x. x \<noteq> RB) cs))"
proof (cases "dropWhile (\<lambda>x. x \<noteq> RB) cs = []")
  case True
  show ?thesis unfolding True by simp
next
  case False
  from token_shape [OF this] assms
  have "braces_closed ((takeWhile (\<lambda>x. x \<noteq> RB) cs @ [RB]) @ tl (dropWhile (\<lambda>x. x \<noteq> RB) cs))"
    by simp
  then show ?thesis by (rule braces_closed_append)
qed

lemma fill_spec_append:
  "braces_closed v \<Longrightarrow> fill_spec m (v @ ys) = fill_spec m v @ fill_spec m ys"
proof (induction v rule: extrair_placeholders.induct)
  case 1
  show ?case by simp
next
  case (2 c cs)
  let ?name = "takeWhile (\<lambda>x. x \<noteq> RB) cs"
  let ?rest = "dropWhile (\<lambda>x. x \<noteq> RB) cs"
  from "2.prems" have bc: "braces_closed cs" and cl: "c = LB \<Longrightarrow> RB \<in> set cs"
    by simp_all
  show ?case
  proof (cases "c = LB \<and> ?name \<noteq> [] \<and> ?rest \<noteq> []")
    case True
    then have c: "c = LB" and name: "?name \<noteq> []" and rest: "?rest \<noteq> []"
      by simp_all
    from rest have ex: "\<exists>x\<in>set cs. \<not> x \<noteq> RB" by auto
    have t: "takeWhile (\<lambda>x. x \<noteq> RB) (cs @ ys) = ?name"
      using ex by (simp add: takeWhile_append1)
    have d: "dropWhile (\<lambda>x. x \<noteq> RB) (cs @ ys) = ?rest @ ys"
      using ex by (simp add: dropWhile_append1)
    from rest have tl: "tl (?rest @ ys) = tl ?rest @ ys" by simp
    have IH: "fill_spec m (tl ?rest @ ys) = fill_spec m (tl ?rest) @ fill_spec m ys"
      using True braces_closed_tl_rest [OF bc] by (intro "2.IH"(1)) auto
    have "fill_spec m ((c # cs) @ ys) = fill_spec m (LB # (cs @ ys))"
      using c by simp
    also have "\<dots> = (case m ?name of Some v \<Rightarrow> v | None \<Rightarrow> LB # ?name @ [RB])
                       @ fill_spec m (tl ?rest @ ys)"
      using fill_spec_token [of "cs @ ys" m] name rest unfolding t d tl by simp
    also have "\<dots> = fill_spec m (c # cs) @ fill_spec m ys"
      unfolding c fill_spec_token [OF name rest] IH by simp
    finally show ?thesis .
  next
    case False
    have IH: "fill_spec m (cs @ ys) = fill_spec m cs @ fill_spec m ys"
      using False bc by (intro "2.IH"(2)) auto
    have "\<not> (c = LB \<and> takeWhile (\<lambda>x. x \<noteq> RB) (cs @ ys) \<noteq> []
              \<and> dropWhile (\<lambda>x. x \<noteq> RB) (cs @ ys) \<noteq> [])"
    proof (cases "c = LB")
      case True
      with cl have ex: "\<exists>x\<in>set cs. \<not> x \<noteq> RB" by auto
      then have "?rest \<noteq> []" by auto
      with True False have "?name = []" by blast
      then show ?thesis
        using ex by (simp add: takeWhile_append1)
    next
      case False
      then show ?thesis by simp
    qed
    then have "fill_spec m (c # (cs @ ys)) = c # fill_spec m (cs @ ys)"
      by (rule fill_spec_stray)
    then show ?thesis
      unfolding fill_spec_stray [OF False] IH by simp
  qed
qed


lemma extrair_stray:
  "\<not> (c = LB \<and> takeWhile (\<lambda>x. x \<noteq> RB) cs \<noteq> [] \<and> dropWhile (\<lambda>x. x \<noteq> RB) cs \<noteq> [])
   \<Longrightarrow> extrair_placeholders (c # cs) = extrair_placeholders cs"
  by auto

lemma extrair_token:
  "takeWhile (\<lambda>x. x \<noteq> RB) cs \<noteq> [] \<Longrightarrow> dropWhile (\<lambda>x. x \<noteq> RB) cs \<noteq> []
   \<Longrightarrow> extrair_placeholders (LB # cs) =
       takeWhile (\<lambda>x. x \<noteq> RB) cs # extrair_placeholders (tl (dropWhile (\<lambda>x. x \<noteq> RB) cs))"
  by simp

lemma extrair_append:
  "braces_closed v \<Longrightarrow>
   extrair_placeholders (v @ ys) = extrair_placeholders v @ extrair_placeholders ys"
proof (induction v rule: extrair_placeholders.induct)
  case 1
  show ?case by simp
next
  case (2 c cs)
  let ?name = "takeWhile (\<lambda>x. x \<noteq> RB) cs"
  let ?rest = "dropWhile (\<lambda>x. x \<noteq> RB) cs"
  from "2.prems" have bc: "braces_closed cs" and cl: "c = LB \<Longrightarrow> RB \<in> set cs"
    by simp_all
  show ?case
  proof (cases "c = LB \<and> ?name \<noteq> [] \<and> ?rest \<noteq> []")
    case True
    then have c: "c = LB" and name: "?name \<noteq> []" and rest: "?rest \<noteq> []"
      by simp_all
    from rest have ex: "\<exists>x\<in>set cs. \<not> x \<noteq> RB" by auto
    have t: "takeWhile (\<lambda>x. x \<noteq> RB) (cs @ ys) = ?name"
      using ex by (simp add: takeWhile_append1)
    have d: "dropWhile (\<lambda>x. x \<noteq> RB) (cs @ ys) = ?rest @ ys"
      using ex by (simp add: dropWhile_append1)
    from rest have tl: "tl (?rest @ ys) = tl ?rest @ ys" by simp
    have IH: "extrair_placeholders (tl ?rest @ ys)
              = extrair_placeholders (tl ?rest) @ extrair_placeholders ys"
      using True braces_closed_tl_rest [OF bc] by (intro "2.IH"(1)) auto
    have "extrair_placeholders ((c # cs) @ ys) = extrair_placeholders (LB # (cs @ ys))"
      using c by simp
    also have "\<dots> = ?name # extrair_placeholders (tl ?rest @ ys)"
      using extrair_token [of "cs @ ys"] name rest unfolding t d tl by simp
    also have "\<dots> = extrair_placeholders (c # cs) @ extrair_placeholders ys"
      unfolding c extrair_token [OF name rest] IH by simp
    finally show ?thesis .
  next
    case False
    have IH: "extrair_placeholders (cs @ ys) = extrair_placeholders cs @ extrair_placeholders ys"
      using False bc by (intro "2.IH"(2)) auto
    have "\<not> (c = LB \<and> takeWhile (\<lambda>x. x \<noteq> RB) (cs @ ys) \<noteq> []
              \<and> dropWhile (\<lambda>x. x \<noteq> RB) (cs @ ys) \<noteq> [])"
    proof (cases "c = LB")
      case True
      with cl have ex: "\<exists>x\<in>set cs. \<not> x \<noteq> RB" by auto
      then have "?rest \<noteq> []" by auto
      with True False have "?name = []" by blast
      then show ?thesis
        using ex by (simp add: takeWhile_append1)
    next
      case False
      then show ?thesis by simp
    qed
    then have "extrair_placeholders (c # (cs @ ys)) = extrair_placeholders (cs @ ys)"
      by (rule extrair_stray)
    then show ?thesis
      unfolding extrair_stray [OF False] IH by simp
  qed
qed

lemma fill_spec_at_token:
  assumes "RB \<notin> set n" "n \<noteq> []"
  shows "fill_spec m (LB # (n @ RB # r)) =
         (case m n of Some v \<Rightarrow> v | None \<Rightarrow> LB # n @ [RB]) @ fill_spec m r"
proof -
  have t: "takeWhile (\<lambda>x. x \<noteq> RB) (n @ RB # r) = n"
    and d: "dropWhile (\<lambda>x. x \<noteq> RB) (n @ RB # r) = RB # r"
    using assms(1) by (simp_all add: takeWhile_token dropWhile_token)
  show ?thesis
    using assms(2) fill_spec_token [of "n @ RB # r" m] unfolding t d by simp
qed

lemma extrair_at_token:
  assumes "RB \<notin> set n" "n \<noteq> []"
  shows "extrair_placeholders (LB # (n @ RB # r)) = n # extrair_placeholders r"
proof -
  have t: "takeWhile (\<lambda>x. x \<noteq> RB) (n @ RB # r) = n"
    and d: "dropWhile (\<lambda>x. x \<noteq> RB) (n @ RB # r) = RB # r"
    using assms(1) by (simp_all add: takeWhile_token dropWhile_token)
  show ?thesis
    using assms(2) extrair_token [of "n @ RB # r"] unfolding t d by simp
qed

lemma stray_preserved:
  assumes "takeWhile (\<lambda>x. x \<noteq> RB) cs = [] \<or> dropWhile (\<lambda>x. x \<noteq> RB) cs = []"
  shows "takeWhile (\<lambda>x. x \<noteq> RB) (fill_spec m cs) = []
         \<or> dropWhile (\<lambda>x. x \<noteq> RB) (fill_spec m cs) = []"
proof (cases "dropWhile (\<lambda>x. x \<noteq> RB) cs = []")
  case True
  then have "RB \<notin> set cs" by auto
  then have "fill_spec m cs = cs" by (rule fill_spec_no_RB)
  with True show ?thesis by simp
next
  case False
  with assms have "takeWhile (\<lambda>x. x \<noteq> RB) cs = []" by blast
  with False obtain cs' where "cs = RB # cs'"
    by (cases cs) (auto split: if_splits)
  then show ?thesis by simp
qed

lemma fill_spec_fill_spec:
  assumes closed: "\<And>n v. m1 n = Some v \<Longrightarrow> braces_closed v"
  shows "fill_spec m2 (fill_spec m1 s) =
         fill_spec (\<lambda>n. case m1 n of Some v \<Rightarrow> Some (fill_spec m2 v) | None \<Rightarrow> m2 n) s"
    (is "_ = fill_spec ?m s")
proof (induction s rule: extrair_placeholders.induct)
  case 1
  show ?case by simp
next
  case (2 c cs)
  let ?name = "takeWhile (\<lambda>x. x \<noteq> RB) cs"
  let ?rest = "dropWhile (\<lambda>x. x \<noteq> RB) cs"
  show ?case
  proof (cases "c = LB \<and> ?name \<noteq> [] \<and> ?rest \<noteq> []")
    case True
    then have c: "c = LB" and name: "?name \<noteq> []" and rest: "?rest \<noteq> []"
      by simp_all
    have nRB: "RB \<notin> set ?name"
      by (auto dest: set_takeWhileD)
    have IH: "fill_spec m2 (fill_spec m1 (tl ?rest)) = fill_spec ?m (tl ?rest)"
      using True by (intro "2.IH"(1)) auto
    show ?thesis
    proof (cases "m1 ?name")
      case None
      have "fill_spec m1 (c # cs) = LB # (?name @ RB # fill_spec m1 (tl ?rest))"
        unfolding c fill_spec_token [OF name rest] using None by simp
      moreover have "fill_spec m2 (LB # (?name @ RB # fill_spec m1 (tl ?rest)))
            = (case m2 ?name of Some v \<Rightarrow> v | None \<Rightarrow> LB # ?name @ [RB])
              @ fill_spec m2 (fill_spec m1 (tl ?rest))"
        using nRB name by (rule fill_spec_at_token)
      moreover have "fill_spec ?m (c # cs)
            = (case m2 ?name of Some v \<Rightarrow> v | None \<Rightarrow> LB # ?name @ [RB])
              @ fill_spec ?m (tl ?rest)"
        unfolding c fill_spec_token [OF name rest] using None by simp
      ultimately show ?thesis
        using IH by (simp only:)
    next
      case (Some v)
      have "fill_spec m1 (c # cs) = v @ fill_spec m1 (tl ?rest)"
        unfolding c fill_spec_token [OF name rest] using Some by simp
      moreover have "fill_spec m2 (v @ fill_spec m1 (tl ?rest))
            = fill_spec m2 v @ fill_spec m2 (fill_spec m1 (tl ?rest))"
        using closed [OF Some] by (rule fill_spec_append)
      moreover have "fill_spec ?m (c # cs) = fill_spec m2 v @ fill_spec ?m (tl ?rest)"
        unfolding c fill_spec_token [OF name rest] using Some by simp
      ultimately show ?thesis
        using IH by (simp only:)
    qed
  next
    case False
    have IH: "fill_spec m2 (fill_spec m1 cs) = fill_spec ?m cs"
      using False by (intro "2.IH"(2)) auto
    have "\<not> (c = LB \<and> takeWhile (\<lambda>x. x \<noteq> RB) (fill_spec m1 cs) \<noteq> []
              \<and> dropWhile (\<lambda>x. x \<noteq> RB) (fill_spec m1 cs) \<noteq> [])"
    proof (cases "c = LB")
      case True
      with False have "?name = [] \<or> ?rest = []" by blast
      from stray_preserved [OF this, of m1] show ?thesis by blast
    next
      case False
      then show ?thesis by simp
    qed
    then have "fill_spec m2 (c # fill_spec m1 cs) = c # fill_spec m2 (fill_spec m1 cs)"
      by (rule fill_spec_stray)
    then show ?thesis
      unfolding fill_spec_stray [OF False] IH .
  qed
qed

lemma extrair_fill_spec:
  assumes closed: "\<And>n v. m n = Some v \<Longrightarrow> braces_closed v"
  shows "extrair_placeholders (fill_spec m s) =
         concat (map (\<lambda>n. case m n of Some v \<Rightarrow> extrair_placeholders v | None \<Rightarrow> [n])
                     (extrair_placeholders s))"
proof (induction s rule: extrair_placeholders.induct)
  case 1
  show ?case by simp
next
  case (2 c cs)
  let ?name = "takeWhile (\<lambda>x. x \<noteq> RB) cs"
  let ?rest = "dropWhile (\<lambda>x. x \<noteq> RB) cs"
  let ?f = "\<lambda>n. case m n of Some v \<Rightarrow> extrair_placeholders v | None \<Rightarrow> [n]"
  show ?case
  proof (cases "c = LB \<and> ?name \<noteq> [] \<and> ?rest \<noteq> []")
    case True
    then have c: "c = LB" and name: "?name \<noteq> []" and rest: "?rest \<noteq> []"
      by simp_all
    have nRB: "RB \<notin> set ?name"
      by (auto dest: set_takeWhileD)
    have IH: "extrair_placeholders (fill_spec m (tl ?rest))
              = concat (map ?f (extrair_placeholders (tl ?rest)))"
      using True by (intro "2.IH"(1)) auto
    have r: "concat (map ?f (extrair_placeholders (c # cs)))
             = ?f ?name @ concat (map ?f (extrair_placeholders (tl ?rest)))"
      unfolding c extrair_token [OF name rest] by simp
    show ?thesis
    proof (cases "m ?name")
      case None
      have "fill_spec m (c # cs) = LB # (?name @ RB # fill_spec m (tl ?rest))"
        unfolding c fill_spec_token [OF name rest] using None by simp
      moreover have "extrair_placeholders (LB # (?name @ RB # fill_spec m (tl ?rest)))
            = ?name # extrair_placeholders (fill_spec m (tl ?rest))"
        using nRB name by (rule extrair_at_token)
      ultimately show ?thesis
        unfolding r IH using None by simp
    next
      case (Some v)
      have "fill_spec m (c # cs) = v @ fill_spec m (tl ?rest)"
        unfolding c fill_spec_token [OF name rest] using Some by simp
      moreover have "extrair_placeholders (v @ fill_spec m (tl ?rest))
            = extrair_placeholders v @ extrair_placeholders (fill_spec m (tl ?rest))"
        using closed [OF Some] by (rule extrair_append)
      ultimately show ?thesis
        unfolding r IH using Some by simp
    qed
  next
    case False
    have IH: "extrair_placeholders (fill_spec m cs) = concat (map ?f (extrair_placeholders cs))"
      using False by (intro "2.IH"(2)) auto
    have "\<not> (c = LB \<and> takeWhile (\<lambda>x. x \<noteq> RB) (fill_spec m cs) \<noteq> []
              \<and> dropWhile (\<lambda>x. x \<noteq> RB) (fill_spec m cs) \<noteq> [])"
    proof (cases "c = LB")
      case True
      with False have "?name = [] \<or> ?rest = []" by blast
      from stray_preserved [OF this, of m] show ?thesis by blast
    next
      case False
      then show ?thesis by simp
    qed
    then have "extrair_placeholders (c # fill_spec m cs) = extrair_placeholders (fill_spec m cs)"
      by (rule extrair_stray)
    then show ?thesis
      unfolding fill_spec_stray [OF False] extrair_stray [OF False] IH .
  qed
qed

section \<open>The replacement loop against the one-pass filling\<close>

lemma passo_fill_spec:
  assumes "plain_name k" "plain_tokens s"
  shows "(if contains (LB # k @ [RB]) s then replace_py s (LB # k @ [RB]) v else s)
         = fill_spec [k \<mapsto> v] s"
proof (cases "contains (LB # k @ [RB]) s")
  case True
  then show ?thesis
    using replace_go_fill_spec [OF assms] by (simp add: replace_py_def)
next
  case False
  then have "replace_go (LB # k @ [RB]) v s = s"
    by (intro replace_go_absent) simp
  with False show ?thesis
    using replace_go_fill_spec [OF assms, of v] by simp
qed

lemma plain_tokens_fill_spec:
  assumes "braces_closed v" "plain_tokens v" "plain_tokens s"
  shows "plain_tokens (fill_spec [k \<mapsto> v] s)"
proof -
  have "extrair_placeholders (fill_spec [k \<mapsto> v] s) =
        concat (map (\<lambda>n. case [k \<mapsto> v] n of Some v \<Rightarrow> extrair_placeholders v | None \<Rightarrow> [n])
                    (extrair_placeholders s))"
    using assms(1) by (intro extrair_fill_spec) (auto split: if_splits)
  with assms(2,3) show ?thesis
    by (auto simp: plain_tokens_def list_all_iff split: if_splits)
qed

lemma fill_spec_empty: "fill_spec Map.empty s = s"
proof (induction s rule: extrair_placeholders.induct)
  case 1
  show ?case by simp
next
  case (2 c cs)
  let ?name = "takeWhile (\<lambda>x. x \<noteq> RB) cs"
  let ?rest = "dropWhile (\<lambda>x. x \<noteq> RB) cs"
  show ?case
  proof (cases "c = LB \<and> ?name \<noteq> [] \<and> ?rest \<noteq> []")
    case True
    then have c: "c = LB" and name: "?name \<noteq> []" and rest: "?rest \<noteq> []"
      by simp_all
    have IH: "fill_spec Map.empty (tl ?rest) = tl ?rest"
      using True by (intro "2.IH"(1)) auto
    have "fill_spec Map.empty (c # cs) = LB # (?name @ RB # tl ?rest)"
      unfolding c fill_spec_token [OF name rest] IH by simp
    then show ?thesis
      using token_shape [OF rest] c by simp
  next
    case False
    then have "fill_spec Map.empty cs = cs"
      by (intro "2.IH"(2)) auto
    then show ?thesis
      unfolding fill_spec_stray [OF False] by simp
  qed
qed

lemma substituir_valores_effective:
  assumes "list_all (\<lambda>(k, v). plain_name k \<and> braces_closed v \<and> plain_tokens v) valores"
    and "plain_tokens s"
  shows "substituir_valores valores s = fill_spec (effective_values valores) s"
  using assms
proof (induction valores arbitrary: s)
  case Nil
  show ?case by (simp add: fill_spec_empty)
next
  case (Cons kv valores)
  obtain k v where kv: "kv = (k, v)" by (cases kv)
  from Cons.prems(1) kv have k: "plain_name k" and v: "braces_closed v" "plain_tokens v"
    and rest: "list_all (\<lambda>(k, v). plain_name k \<and> braces_closed v \<and> plain_tokens v) valores"
    by simp_all
  let ?s' = "fill_spec [k \<mapsto> v] s"
  let ?m = "effective_values valores"
  have "substituir_valores (kv # valores) s = substituir_valores valores ?s'"
    unfolding kv using passo_fill_spec [OF k Cons.prems(2), of v] by (simp add: Let_def)
  also have "\<dots> = fill_spec ?m ?s'"
    using rest plain_tokens_fill_spec [OF v Cons.prems(2)] by (rule Cons.IH)
  also have "\<dots> = fill_spec (\<lambda>n. case [k \<mapsto> v] n of Some w \<Rightarrow> Some (fill_spec ?m w)
                                     | None \<Rightarrow> ?m n) s"
    using v(1) by (intro fill_spec_fill_spec) (auto split: if_splits)
  also have "(\<lambda>n. case [k \<mapsto> v] n of Some w \<Rightarrow> Some (fill_spec ?m w) | None \<Rightarrow> ?m n)
             = effective_values (kv # valores)"
    unfolding kv by (auto simp: Let_def)
  finally show ?case .
qed

lemma effective_values_map_of:
  "list_all (\<lambda>(k, v). LB \<notin> set v) valores \<Longrightarrow> effective_values valores = map_of valores"
proof (induction valores)
  case Nil
  show ?case by simp
next
  case (Cons kv valores)
  obtain k v where kv: "kv = (k, v)" by (cases kv)
  with Cons.prems have "LB \<notin> set v" by simp
  then have "fill_spec m v = v" for m
    using fill_spec_skip [of v m "[]"] by simp
  with Cons kv show ?case by (simp add: Let_def)
qed

lemma plain_tokens_covered:
  assumes "set (extrair_placeholders s) \<subseteq> fst ` set valores"
    and "list_all (\<lambda>(k, v). plain_name k) valores"
  shows "plain_tokens s"
  using assms by (fastforce simp: plain_tokens_def list_all_iff plain_name_def)

lemma preencher_template_covered:
  assumes "map_of t k_template = Some (JStr T)"
    and "set (extrair_placeholders T) \<subseteq> fst ` set valores"
  shows "preencher_template (Some t) valores = Inr (substituir_valores valores T)"
proof -
  from assms(1) have "t \<noteq> []" by auto
  moreover from assms(2)
  have "filter (\<lambda>p. p \<notin> fst ` set valores) (extrair_placeholders T) = []"
    by (auto simp: filter_empty_conv)
  ultimately show ?thesis
    using assms(1) by (simp add: preencher_template_def Let_def)
qed

section \<open>Lemmas on \<^verbatim>\<open>format\<close> and the lookups\<close>

lemma emit_simps [simp]:
  "emit v (Inr s) = Inr (v @ s)"
  "emit v (Inl e) = Inl e"
  by (simp_all add: emit_def)

lemmas format_eval = format_py_def campo_especial_def digito_def ustr_def

lemma format_criativo_missing:
  "\<not> set (extrair_placeholders template_criativo) \<subseteq> fst ` set kwargs
   \<Longrightarrow> \<exists>e. format_py template_criativo kwargs = Inl (KeyError e)"
  by (auto simp: format_eval template_criativo_def map_of_eq_None_iff [symmetric]
      split: option.splits)

lemma format_tecnico_missing:
  "\<not> set (extrair_placeholders template_tecnico) \<subseteq> fst ` set kwargs
   \<Longrightarrow> \<exists>e. format_py template_tecnico kwargs = Inl (KeyError e)"
  by (auto simp: format_eval template_tecnico_def map_of_eq_None_iff [symmetric]
      split: option.splits)

lemma format_analise_missing:
  "\<not> set (extrair_placeholders template_analise) \<subseteq> fst ` set kwargs
   \<Longrightarrow> \<exists>e. format_py template_analise kwargs = Inl (KeyError e)"
  by (auto simp: format_eval template_analise_def map_of_eq_None_iff [symmetric]
      split: option.splits)

lemma format_instrucao_missing:
  "\<not> set (extrair_placeholders template_instrucao) \<subseteq> fst ` set kwargs
   \<Longrightarrow> \<exists>e. format_py template_instrucao kwargs = Inl (KeyError e)"
  by (auto simp: format_eval template_instrucao_def map_of_eq_None_iff [symmetric]
      split: option.splits)

lemma format_pesquisa_missing:
  "\<not> set (extrair_placeholders template_pesquisa) \<subseteq> fst ` set kwargs
   \<Longrightarrow> \<exists>e. format_py template_pesquisa kwargs = Inl (KeyError e)"
  by (auto simp: format_eval template_pesquisa_def map_of_eq_None_iff [symmetric]
      split: option.splits)

lemma templates_cases:
  assumes "map_of templates tipo = Some template"
  shows "template \<in> {template_criativo, template_tecnico, template_analise,
                      template_instrucao, template_pesquisa}"
  using assms by (auto simp: templates_def split: if_splits)

lemma format_template_missing:
  assumes "map_of templates tipo = Some template"
    and "\<not> set (extrair_placeholders template) \<subseteq> fst ` set kwargs"
  shows "\<exists>e. format_py template kwargs = Inl (KeyError e)"
  using templates_cases [OF assms(1)] assms(2)
    format_criativo_missing format_tecnico_missing format_analise_missing
    format_instrucao_missing format_pesquisa_missing
  by blast

lemma preencher_template_missing:
  assumes "map_of t k_template = Some (JStr T)"
    and "\<not> set (extrair_placeholders T) \<subseteq> fst ` set valores"
  shows "preencher_template (Some t) valores =
         Inr (valores_faltantes_msg
              @ join_py (ustr '', '')
                  (filter (\<lambda>p. p \<notin> fst ` set valores) (extrair_placeholders T)))"
proof -
  from assms(1) have "t \<noteq> []" by auto
  moreover from assms(2)
  have "filter (\<lambda>p. p \<notin> fst ` set valores) (extrair_placeholders T) \<noteq> []"
    by (auto simp: filter_empty_conv)
  ultimately show ?thesis
    using assms(1) by (simp add: preencher_template_def Let_def)
qed

lemmas estrutura_eval = nivel_basico_def nivel_detalhado_def nivel_avancado_def
  estrutura_basico_def estrutura_detalhado_def estrutura_avancado_def estrutura_prompt_def
  k_instrucao_def k_contexto_def k_objetivo_def k_formato_def k_restricoes_def k_exemplos_def

lemmas exemplo_eval = catalogo_exemplo_def k_nome_def k_categoria_def k_template_def ustr_def
  lower_latin1_def

lemma obter_por_nome_find:
  "\<forall>t\<in>set catalogo. \<exists>s. map_of t k_nome = Some (JStr s) \<Longrightarrow>
   obter_por_nome lower catalogo nome =
     Inr (find (\<lambda>t. campo_lower lower t k_nome = Inr (lower nome)) catalogo)"
  by (induction catalogo) (auto simp: campo_lower_def)

lemma obter_template_por_categoria_lower:
  "lower c1 = lower c2 \<Longrightarrow>
   obter_template_por_categoria lower catalogo c1 = obter_template_por_categoria lower catalogo c2"
  by (induction catalogo) (simp_all split: sum.splits)

lemma obter_template_por_categoria_none:
  "\<forall>t\<in>set catalogo. \<exists>s. map_of t k_categoria = Some (JStr s) \<and> lower s \<noteq> lower c \<Longrightarrow>
   obter_template_por_categoria lower catalogo c = Inr []"
  by (induction catalogo) (auto simp: campo_lower_def)

lemma obter_template_por_categoria_filter:
  "\<forall>t\<in>set catalogo. \<exists>s. map_of t k_categoria = Some (JStr s) \<Longrightarrow>
   obter_template_por_categoria lower catalogo c =
     Inr (filter (\<lambda>t. campo_lower lower t k_categoria = Inr (lower c)) catalogo)"
  by (induction catalogo) (auto simp: campo_lower_def)

text \<open>The words of a text whose words are separated by single spaces.\<close>

lemma split_go_palavra:
  "list_all (\<lambda>c. \<not> isspace c) w \<Longrightarrow> split_go acc (w @ resto) = split_go (rev w @ acc) resto"
  by (induction w arbitrary: acc) simp_all

lemma split_py_join:
  "list_all (\<lambda>w. w \<noteq> [] \<and> list_all (\<lambda>c. \<not> isspace c) w) ws \<Longrightarrow>
   split_py (join_py [32] ws) = ws"
proof (induction "[32::nat]" ws rule: join_py.induct)
  case 1
  show ?case by (simp add: split_py_def)
next
  case (2 x)
  then have "split_go [] (x @ []) = split_go (rev x @ []) []"
    by (intro split_go_palavra) simp
  with 2 show ?case by (simp add: split_py_def)
next
  case (3 x y ys)
  then have "split_go [] (x @ [32] @ join_py [32] (y # ys))
             = split_go (rev x @ []) ([32] @ join_py [32] (y # ys))"
    by (intro split_go_palavra) simp
  with 3 show ?case by (simp add: split_py_def isspace_def)
qed

text \<open>The first line of a text, and the long layout written out.\<close>

lemma split_linhas_primeira:
  "split_linhas p = takeWhile (\<lambda>c. c \<noteq> 10) p # tl (split_linhas p)"
  by (induction p) (auto split: list.splits)

lemma refinar_prompt_eq:
  "refinar_prompt p =
     objetivo_principal_titulo @ takeWhile (\<lambda>c. c \<noteq> 10) p @ contexto_titulo
     @ contexto_refinado @ parametros_qualidade @ prompt_original_titulo @ p"
proof -
  have "(case split_linhas p of [] \<Rightarrow> p | l # _ \<Rightarrow> l) = takeWhile (\<lambda>c. c \<noteq> 10) p"
    by (subst split_linhas_primeira) simp
  then show ?thesis
    by (simp add: refinar_prompt_def Let_def)
qed

section \<open>The claims\<close>

subsection \<open>C1: what is reported when values are missing\<close>

text \<open>
  C1, as the code has it. When the value mapping lacks a placeholder of the template,
  \<^verbatim>\<open>preencher_template\<close> returns the text \<^verbatim>\<open>Valores faltantes: \<close> followed by the
  names of the placeholders without a value, joined by a comma and a space, one entry
  for every occurrence in the template and in the order of the occurrences; nothing
  is raised and no partly filled text is returned. For a known type with a parameter
  missing, \<^verbatim>\<open>gerar_prompt_basico\<close> returns \<^verbatim>\<open>Parametros faltantes: \<close> followed by
  the names of all the placeholders of the template of that type, in the order of
  their occurrence and joined in the same way; the missing names are among them, and
  again nothing is raised and no partly filled text is returned.
\<close>

theorem preencher_template_faltantes:
  "(map_of t k_template = Some (JStr T) \<and> \<not> set (extrair_placeholders T) \<subseteq> fst ` set valores
     \<longrightarrow> preencher_template (Some t) valores =
         Inr (valores_faltantes_msg
              @ join_py (ustr '', '')
                  (filter (\<lambda>p. p \<notin> fst ` set valores) (extrair_placeholders T))))
   \<and> (map_of templates tipo = Some template
       \<and> \<not> set (extrair_placeholders template) \<subseteq> fst ` set kwargs
     \<longrightarrow> gerar_prompt_basico tipo kwargs
           = Inr (parametros_faltantes_msg
                  @ join_py (ustr '', '') (extrair_placeholders template)))"
proof (intro conjI impI)
  assume "map_of t k_template = Some (JStr T)
          \<and> \<not> set (extrair_placeholders T) \<subseteq> fst ` set valores"
  then show "preencher_template (Some t) valores =
         Inr (valores_faltantes_msg
              @ join_py (ustr '', '')
                  (filter (\<lambda>p. p \<notin> fst ` set valores) (extrair_placeholders T)))"
    by (simp add: preencher_template_missing)
next
  assume a: "map_of templates tipo = Some template
             \<and> \<not> set (extrair_placeholders template) \<subseteq> fst ` set kwargs"
  then obtain e where "format_py template kwargs = Inl (KeyError e)"
    using format_template_missing by blast
  with a show "gerar_prompt_basico tipo kwargs
        = Inr (parametros_faltantes_msg
               @ join_py (ustr '', '') (extrair_placeholders template))"
    by (simp add: gerar_prompt_basico_def)
qed

text \<open>
  A template that names a missing placeholder twice lists it twice, where the
  specification lists it once; and \<^verbatim>\<open>gerar_prompt_basico\<close> lists the parameter
  that was supplied next to the three that are missing.
\<close>

theorem preencher_template_faltantes_counterexample:
  "preencher_template (Some [(k_template, JStr (ustr ''{a} {a}''))]) []
     = Inr (ustr ''Valores faltantes: a, a'')
   \<and> missing_spec (ustr ''{a} {a}'') [] = [ustr ''a'']
   \<and> gerar_prompt_basico tipo_tecnico [([225] @ ustr ''rea'', ustr ''IA'')]
     = Inr (ustr ''Par'' @ [226] @ ustr ''metros faltantes: '' @ [225]
            @ ustr ''rea, contexto, conceito, n'' @ [237] @ ustr ''vel_detalhe'')
   \<and> missing_spec template_tecnico [([225] @ ustr ''rea'', ustr ''IA'')]
     = [ustr ''contexto'', ustr ''conceito'', ustr ''n'' @ [237] @ ustr ''vel_detalhe'']"
  by (simp add: preencher_template_def k_template_def ustr_def valores_faltantes_msg_def
      missing_spec_def gerar_prompt_basico_def templates_def tipo_tecnico_def tipo_criativo_def
      tipo_analise_def tipo_instrucao_def tipo_pesquisa_def template_tecnico_def format_py_def
      campo_especial_def digito_def parametros_faltantes_msg_def)

text \<open>One placeholder of two without a value; one parameter of five supplied.\<close>

theorem preencher_template_faltantes_witness:
  "preencher_template (Some [(k_template, JStr (ustr ''Explique {conceito} com {detalhe}''))])
       [(ustr ''detalhe'', ustr ''exemplos'')]
     = Inr (ustr ''Valores faltantes: conceito'')
   \<and> gerar_prompt_basico tipo_criativo [(ustr ''tema'', ustr ''o mar'')]
     = Inr (ustr ''Par'' @ [226]
            @ ustr ''metros faltantes: persona, contexto, output_type, tema, estilo'')"
proof -
  have 1: "map_of [(k_template, JStr (ustr ''Explique {conceito} com {detalhe}''))] k_template
           = Some (JStr (ustr ''Explique {conceito} com {detalhe}''))
         \<and> \<not> set (extrair_placeholders (ustr ''Explique {conceito} com {detalhe}''))
             \<subseteq> fst ` set [(ustr ''detalhe'', ustr ''exemplos'')]"
    by (simp add: ustr_def)
  have 2: "map_of templates tipo_criativo = Some template_criativo
         \<and> \<not> set (extrair_placeholders template_criativo)
             \<subseteq> fst ` set [(ustr ''tema'', ustr ''o mar'')]"
    by (simp add: templates_def template_criativo_def ustr_def)
  have 3: "parametros_faltantes_msg
           @ join_py (ustr '', '') (extrair_placeholders template_criativo)
           = ustr ''Par'' @ [226]
             @ ustr ''metros faltantes: persona, contexto, output_type, tema, estilo''"
    by (simp add: parametros_faltantes_msg_def template_criativo_def ustr_def)
  from preencher_template_faltantes
         [where t = "[(k_template, JStr (ustr ''Explique {conceito} com {detalhe}''))]"
            and T = "ustr ''Explique {conceito} com {detalhe}''"
            and valores = "[(ustr ''detalhe'', ustr ''exemplos'')]"
            and tipo = tipo_criativo and template = template_criativo
            and kwargs = "[(ustr ''tema'', ustr ''o mar'')]"] 1 2
  have "preencher_template
          (Some [(k_template, JStr (ustr ''Explique {conceito} com {detalhe}''))])
          [(ustr ''detalhe'', ustr ''exemplos'')]
        = Inr (valores_faltantes_msg
              @ join_py (ustr '', '')
                  (filter (\<lambda>p. p \<notin> fst ` set [(ustr ''detalhe'', ustr ''exemplos'')])
                     (extrair_placeholders (ustr ''Explique {conceito} com {detalhe}''))))"
    and g: "gerar_prompt_basico tipo_criativo [(ustr ''tema'', ustr ''o mar'')]
        = Inr (parametros_faltantes_msg
               @ join_py (ustr '', '') (extrair_placeholders template_criativo))"
    by blast+
  then show ?thesis
    unfolding 3 by (simp add: ustr_def valores_faltantes_msg_def)
qed

subsection \<open>C2: the substitution is sequential\<close>

text \<open>
  C2, as the code has it. The entries of the mapping are applied one after the other,
  in the order of the mapping, each by one literal \<^verbatim>\<open>replace\<close> on the text produced
  so far. For keys that are plain names and values whose braces are closed and whose
  placeholders have plain names, the result is the template with every placeholder
  replaced by the effective value of its entry: the value is not read again for its
  own key nor for a key before it, and a placeholder inside it is replaced exactly
  when it names a key that comes later in the mapping.
\<close>

theorem preencher_template_sequencial:
  assumes "map_of t k_template = Some (JStr T)"
    and "set (extrair_placeholders T) \<subseteq> fst ` set valores"
    and "list_all (\<lambda>(k, v). plain_name k \<and> braces_closed v \<and> plain_tokens v) valores"
  shows "preencher_template (Some t) valores = Inr (fill_spec (effective_values valores) T)"
proof -
  have "list_all (\<lambda>(k, v). plain_name k) valores"
    using assms(3) by (auto simp: list_all_iff)
  from plain_tokens_covered [OF assms(2) this]
  have "substituir_valores valores T = fill_spec (effective_values valores) T"
    by (rule substituir_valores_effective [OF assms(3)])
  then show ?thesis
    using preencher_template_covered [OF assms(1,2)] by simp
qed

text \<open>
  The value of \<open>a\<close> holds the token of the later key \<open>b\<close>: the token is replaced by
  the value bound to \<open>b\<close>.
\<close>

theorem preencher_template_sequencial_counterexample:
  "set (extrair_placeholders (ustr ''{a}''))
     \<subseteq> fst ` set [(ustr ''a'', ustr ''{b}''), (ustr ''b'', ustr ''X'')]
   \<and> preencher_template (Some [(k_template, JStr (ustr ''{a}''))])
       [(ustr ''a'', ustr ''{b}''), (ustr ''b'', ustr ''X'')] = Inr (ustr ''X'')"
  by (simp add: preencher_template_def k_template_def ustr_def replace_py_def)

text \<open>
  Each of the two values names the other key: the token in the first value is
  replaced, the token in the second one stays.
\<close>

theorem preencher_template_sequencial_witness:
  "preencher_template (Some [(k_template, JStr (ustr ''{a} e {b}''))])
     [(ustr ''a'', ustr ''[{b}]''), (ustr ''b'', ustr ''<{a}>'')]
   = Inr (ustr ''[<{a}>] e <{a}>'')"
proof -
  let ?t = "[(k_template, JStr (ustr ''{a} e {b}''))]"
  let ?T = "ustr ''{a} e {b}''"
  let ?V = "[(ustr ''a'', ustr ''[{b}]''), (ustr ''b'', ustr ''<{a}>'')]"
  have 1: "map_of ?t k_template = Some (JStr ?T)"
    by (simp add: k_template_def ustr_def)
  have 2: "set (extrair_placeholders ?T) \<subseteq> fst ` set ?V"
    by (simp add: ustr_def)
  have 3: "list_all (\<lambda>(k, v). plain_name k \<and> braces_closed v \<and> plain_tokens v) ?V"
    by (simp add: ustr_def plain_name_def plain_tokens_def)
  have 4: "fill_spec (effective_values ?V) ?T = ustr ''[<{a}>] e <{a}>''"
    by (simp add: ustr_def)
  from preencher_template_sequencial [OF 1 2 3] show ?thesis
    unfolding 4 .
qed

subsection \<open>C3: a complete mapping fills the template\<close>

text \<open>
  C3, for plain values. When the mapping gives a value to every placeholder of the
  template, its keys are plain names and no value holds an opening brace, the result
  of \<^verbatim>\<open>preencher_template\<close> is the template with every placeholder replaced by its
  value, and no placeholder is left in it.
\<close>

theorem preencher_template_completo:
  assumes "map_of t k_template = Some (JStr T)"
    and "set (extrair_placeholders T) \<subseteq> fst ` set valores"
    and "list_all (\<lambda>(k, v). plain_name k \<and> LB \<notin> set v) valores"
  shows "preencher_template (Some t) valores = Inr (fill_spec (map_of valores) T)
         \<and> extrair_placeholders (fill_spec (map_of valores) T) = []"
proof -
  have keys: "list_all (\<lambda>(k, v). plain_name k) valores"
    and vals: "list_all (\<lambda>(k, v). LB \<notin> set v) valores"
    using assms(3) by (auto simp: list_all_iff)
  have noLB: "braces_closed v \<and> extrair_placeholders v = []" if "LB \<notin> set v" for v
    using that extrair_skip [of v "[]"] by (simp add: braces_closed_no_LB)
  have "list_all (\<lambda>(k, v). plain_name k \<and> braces_closed v \<and> plain_tokens v) valores"
    using assms(3) noLB by (auto simp: list_all_iff plain_tokens_def)
  then have "substituir_valores valores T = fill_spec (effective_values valores) T"
    using plain_tokens_covered [OF assms(2) keys] by (rule substituir_valores_effective)
  then have 1: "preencher_template (Some t) valores = Inr (fill_spec (map_of valores) T)"
    using preencher_template_covered [OF assms(1,2)] effective_values_map_of [OF vals] by simp
  have closed: "braces_closed v" if "map_of valores n = Some v" for n v
    using that vals noLB by (auto simp: list_all_iff dest!: map_of_SomeD)
  have "extrair_placeholders (fill_spec (map_of valores) T) =
        concat (map (\<lambda>n. case map_of valores n of Some v \<Rightarrow> extrair_placeholders v | None \<Rightarrow> [n])
                    (extrair_placeholders T))"
    using closed by (rule extrair_fill_spec)
  also have "\<dots> = []"
  proof -
    have "(case map_of valores n of Some v \<Rightarrow> extrair_placeholders v | None \<Rightarrow> [n]) = []"
      if "n \<in> set (extrair_placeholders T)" for n
    proof -
      from that assms(2) have "n \<in> fst ` set valores" by blast
      then obtain v where v: "map_of valores n = Some v"
        by (cases "map_of valores n") (auto simp: map_of_eq_None_iff)
      then have "LB \<notin> set v"
        using vals by (auto simp: list_all_iff dest!: map_of_SomeD)
      with v noLB show ?thesis by simp
    qed
    then show ?thesis by simp
  qed
  finally show ?thesis using 1 by simp
qed

text \<open>
  With a value that holds a token, the result differs from the template with every
  placeholder replaced by its value, and a value that holds an unbound token leaves
  that token in the result. With a key that holds a brace, the entry of another key
  can break the placeholder before its own entry is applied.
\<close>

theorem preencher_template_completo_counterexample:
  "set (extrair_placeholders (ustr ''{a} {b}''))
     \<subseteq> fst ` set [(ustr ''a'', ustr ''{b}''), (ustr ''b'', ustr ''X'')]
   \<and> preencher_template (Some [(k_template, JStr (ustr ''{a} {b}''))])
       [(ustr ''a'', ustr ''{b}''), (ustr ''b'', ustr ''X'')] = Inr (ustr ''X X'')
   \<and> fill_spec (map_of [(ustr ''a'', ustr ''{b}''), (ustr ''b'', ustr ''X'')]) (ustr ''{a} {b}'')
       = ustr ''{b} X''
   \<and> preencher_template (Some [(k_template, JStr (ustr ''{a}''))]) [(ustr ''a'', ustr ''{z}'')]
       = Inr (ustr ''{z}'')
   \<and> extrair_placeholders (ustr ''{z}'') = [ustr ''z'']
   \<and> set (extrair_placeholders (ustr ''{x{k} {k}''))
     \<subseteq> fst ` set [(ustr ''k'', ustr ''v''), (ustr ''x{k'', ustr ''w'')]
   \<and> preencher_template (Some [(k_template, JStr (ustr ''{x{k} {k}''))])
       [(ustr ''k'', ustr ''v''), (ustr ''x{k'', ustr ''w'')] = Inr (ustr ''{xv v'')
   \<and> fill_spec (map_of [(ustr ''k'', ustr ''v''), (ustr ''x{k'', ustr ''w'')]) (ustr ''{x{k} {k}'')
       = ustr ''w v''"
  by (simp add: preencher_template_def k_template_def ustr_def replace_py_def)

text \<open>The example of the specification.\<close>

theorem preencher_template_completo_witness:
  "preencher_template
     (Some [(k_nome, JStr (ustr ''Explicar'')),
            (k_template, JStr (ustr ''Explique {conceito} com {n'' @ [237] @ ustr ''vel}''))])
     [(ustr ''conceito'', ustr ''recurs'' @ [227] @ ustr ''o''),
      (ustr ''n'' @ [237] @ ustr ''vel'', ustr ''exemplos simples'')]
   = Inr (ustr ''Explique recurs'' @ [227] @ ustr ''o com exemplos simples'')
   \<and> extrair_placeholders (ustr ''Explique recurs'' @ [227] @ ustr ''o com exemplos simples'') = []"
proof -
  let ?t = "[(k_nome, JStr (ustr ''Explicar'')),
            (k_template, JStr (ustr ''Explique {conceito} com {n'' @ [237] @ ustr ''vel}''))]"
  let ?T = "ustr ''Explique {conceito} com {n'' @ [237] @ ustr ''vel}''"
  let ?V = "[(ustr ''conceito'', ustr ''recurs'' @ [227] @ ustr ''o''),
             (ustr ''n'' @ [237] @ ustr ''vel'', ustr ''exemplos simples'')]"
  have 1: "map_of ?t k_template = Some (JStr ?T)"
    by (simp add: k_nome_def k_template_def ustr_def)
  have 2: "set (extrair_placeholders ?T) \<subseteq> fst ` set ?V"
    by (simp add: ustr_def)
  have 3: "list_all (\<lambda>(k, v). plain_name k \<and> LB \<notin> set v) ?V"
    by (simp add: ustr_def plain_name_def)
  have 4: "fill_spec (map_of ?V) ?T = ustr ''Explique recurs'' @ [227] @ ustr ''o com exemplos simples''"
    by (simp add: ustr_def)
  from preencher_template_completo [OF 1 2 3] show ?thesis
    unfolding 4 .
qed

subsection \<open>C4: the word count selects the branch\<close>

text \<open>
  C4. \<^verbatim>\<open>otimizar_prompt\<close> counts the words of \<^verbatim>\<open>split()\<close>: a text of fewer than 10
  words, so one of 9, goes to \<^verbatim>\<open>_expandir_prompt\<close>; a text of 10 to 29 words, both
  ends included, goes to \<^verbatim>\<open>_estruturar_prompt\<close>; a text of 30 words or more goes to
  \<^verbatim>\<open>_refinar_prompt\<close>. The count is the number of words: for words without white
  space that are joined by single spaces it is the length of the list of words.
\<close>

theorem otimizar_prompt_limites:
  "(length (split_py p) < 10 \<longrightarrow> otimizar_prompt p = expandir_prompt p)
   \<and> (10 \<le> length (split_py p) \<and> length (split_py p) < 30 \<longrightarrow>
        otimizar_prompt p = estruturar_prompt p)
   \<and> (30 \<le> length (split_py p) \<longrightarrow> otimizar_prompt p = refinar_prompt p)
   \<and> (list_all (\<lambda>w. w \<noteq> [] \<and> list_all (\<lambda>c. \<not> isspace c) w) ws \<longrightarrow>
        length (split_py (join_py [32] ws)) = length ws)"
  by (simp add: otimizar_prompt_def split_py_join)

theorem otimizar_prompt_limites_witness:
  "otimizar_prompt texto_9 = expandir_prompt texto_9
   \<and> otimizar_prompt texto_10 = estruturar_prompt texto_10
   \<and> otimizar_prompt texto_29 = estruturar_prompt texto_29
   \<and> otimizar_prompt texto_30 = refinar_prompt texto_30
   \<and> join_py [32] palavras_9 = texto_9
   \<and> length (split_py (join_py [32] palavras_9)) = 9"
proof -
  have 9: "length (split_py texto_9) < 10"
    by (simp add: texto_9_def split_py_def ustr_def isspace_def)
  have 10: "10 \<le> length (split_py texto_10) \<and> length (split_py texto_10) < 30"
    by (simp add: texto_10_def split_py_def ustr_def isspace_def)
  have 29: "10 \<le> length (split_py texto_29) \<and> length (split_py texto_29) < 30"
    by (simp add: texto_29_def split_py_def ustr_def isspace_def)
  have 30: "30 \<le> length (split_py texto_30)"
    by (simp add: texto_30_def split_py_def ustr_def isspace_def)
  have w: "list_all (\<lambda>w. w \<noteq> [] \<and> list_all (\<lambda>c. \<not> isspace c) w) palavras_9"
    by (simp add: palavras_9_def ustr_def isspace_def)
  have j: "join_py [32] palavras_9 = texto_9"
    by (simp add: palavras_9_def texto_9_def ustr_def)
  have l: "length palavras_9 = 9"
    by (simp add: palavras_9_def)
  from otimizar_prompt_limites [of texto_9 palavras_9] otimizar_prompt_limites [of texto_10]
       otimizar_prompt_limites [of texto_29] otimizar_prompt_limites [of texto_30]
       9 10 29 30 w j l
  show ?thesis by metis
qed

subsection \<open>C5: the defaults of the structured prompt\<close>

text \<open>
  C5. At the level \<^verbatim>\<open>basico\<close> the result of \<^verbatim>\<open>gerar_prompt_estruturado\<close> is the
  instruction alone. At the level \<^verbatim>\<open>detalhado\<close> an empty context, objective or format
  is replaced by its default sentence, and the restrictions and examples do not
  appear. At the level \<^verbatim>\<open>avancado\<close> the empty restrictions and examples get their
  defaults as well.
\<close>

theorem gerar_prompt_estruturado_niveis:
  "gerar_prompt_estruturado nivel_basico i c ob f r e = Inr i
   \<and> gerar_prompt_estruturado nivel_detalhado i c ob f r e =
       Inr (i @ [10, 10] @ ustr ''Contexto: '' @ (if c = [] then contexto_padrao else c)
            @ [10] @ ustr ''Objetivo: '' @ (if ob = [] then objetivo_padrao else ob)
            @ [10] @ ustr ''Formato desejado: '' @ (if f = [] then formato_padrao else f))
   \<and> gerar_prompt_estruturado nivel_avancado i c ob f r e =
       Inr (ustr ''# TAREFA'' @ [10] @ i
            @ [10, 10] @ ustr ''# CONTEXTO'' @ [10] @ (if c = [] then contexto_padrao else c)
            @ [10, 10] @ ustr ''# OBJETIVO'' @ [10] @ (if ob = [] then objetivo_padrao else ob)
            @ [10, 10] @ ustr ''# FORMATO'' @ [10] @ (if f = [] then formato_padrao else f)
            @ [10, 10] @ ustr ''# RESTRI'' @ [199, 213] @ ustr ''ES'' @ [10]
            @ (if r = [] then restricoes_padrao else r)
            @ [10, 10] @ ustr ''# EXEMPLOS'' @ [10] @ (if e = [] then exemplos_padrao else e))"
  by (simp add: gerar_prompt_estruturado_def format_eval estrutura_eval)

subsection \<open>C6: an unknown level, an unknown type\<close>

text \<open>
  C6. For a level other than the three of \<^verbatim>\<open>estrutura_prompt\<close>,
  \<^verbatim>\<open>gerar_prompt_estruturado\<close> returns the message that lists the three levels; for a
  type that is no key of \<^verbatim>\<open>templates\<close>, \<^verbatim>\<open>gerar_prompt_basico\<close> returns the message
  that lists the five types. Both return, neither raises.
\<close>

theorem tipo_nivel_invalido:
  "(nivel \<notin> {nivel_basico, nivel_detalhado, nivel_avancado} \<longrightarrow>
      gerar_prompt_estruturado nivel i c ob f r e =
        Inr (ustr ''N'' @ [237] @ ustr ''vel inv'' @ [225] @ ustr ''lido. N'' @ [237]
             @ ustr ''veis dispon'' @ [237] @ ustr ''veis: b'' @ [225]
             @ ustr ''sico, detalhado, avan'' @ [231] @ ustr ''ado''))
   \<and> (tipo \<notin> fst ` set templates \<longrightarrow>
      gerar_prompt_basico tipo kwargs =
        Inr (ustr ''Tipo inv'' @ [225] @ ustr ''lido. Tipos dispon'' @ [237]
             @ ustr ''veis: criativo, t'' @ [233] @ ustr ''cnico, an'' @ [225]
             @ ustr ''lise, instru'' @ [231, 227] @ ustr ''o, pesquisa''))"
  by (simp add: gerar_prompt_estruturado_def gerar_prompt_basico_def estrutura_eval ustr_def
      nivel_invalido_msg_def tipo_invalido_msg_def templates_def tipo_criativo_def
      tipo_tecnico_def tipo_analise_def tipo_instrucao_def tipo_pesquisa_def)

theorem tipo_nivel_invalido_witness:
  "gerar_prompt_estruturado (ustr ''extremo'') (ustr ''Resuma'') [] [] [] [] [] =
     Inr (ustr ''N'' @ [237] @ ustr ''vel inv'' @ [225] @ ustr ''lido. N'' @ [237]
          @ ustr ''veis dispon'' @ [237] @ ustr ''veis: b'' @ [225]
          @ ustr ''sico, detalhado, avan'' @ [231] @ ustr ''ado'')
   \<and> gerar_prompt_basico (ustr ''poema'') [(ustr ''tema'', ustr ''o mar'')] =
     Inr (ustr ''Tipo inv'' @ [225] @ ustr ''lido. Tipos dispon'' @ [237]
          @ ustr ''veis: criativo, t'' @ [233] @ ustr ''cnico, an'' @ [225]
          @ ustr ''lise, instru'' @ [231, 227] @ ustr ''o, pesquisa'')"
proof -
  have 1: "ustr ''extremo'' \<notin> {nivel_basico, nivel_detalhado, nivel_avancado}"
    by (simp add: estrutura_eval ustr_def)
  have 2: "ustr ''poema'' \<notin> fst ` set templates"
    by (simp add: templates_def tipo_criativo_def tipo_tecnico_def tipo_analise_def
        tipo_instrucao_def tipo_pesquisa_def ustr_def)
  from tipo_nivel_invalido
         [where nivel = "ustr ''extremo''" and i = "ustr ''Resuma''" and c = "[]" and ob = "[]"
            and f = "[]" and r = "[]" and e = "[]" and tipo = "ustr ''poema''"
            and kwargs = "[(ustr ''tema'', ustr ''o mar'')]"] 1 2
  show ?thesis by blast
qed

subsection \<open>C7: looking a template up\<close>

text \<open>
  C7, for a catalog whose templates have a name. \<^verbatim>\<open>obter_template\<close> takes a
  position counted from zero or a name. On every catalog, a position inside it gives
  the template there, and a position below zero or beyond the end gives \<^verbatim>\<open>None\<close>.
  On a catalog in which every template has a text under \<^verbatim>\<open>nome\<close>, a name gives the
  first template whose lower-cased name equals the lower-cased argument, and
  \<^verbatim>\<open>None\<close> when there is none; nothing is raised there.
\<close>

theorem obter_template_busca:
  "(0 \<le> i \<and> i < int (length catalogo) \<longrightarrow>
      obter_template lower catalogo (Indice i) = Inr (Some (catalogo ! nat i)))
   \<and> (i < 0 \<or> int (length catalogo) \<le> i \<longrightarrow>
      obter_template lower catalogo (Indice i) = Inr None)
   \<and> ((\<forall>t\<in>set catalogo. \<exists>s. map_of t k_nome = Some (JStr s)) \<longrightarrow>
      obter_template lower catalogo (Nome nome) =
        Inr (find (\<lambda>t. campo_lower lower t k_nome = Inr (lower nome)) catalogo))
   \<and> ((\<forall>t\<in>set catalogo. \<exists>s. map_of t k_nome = Some (JStr s) \<and> lower s \<noteq> lower nome) \<longrightarrow>
      obter_template lower catalogo (Nome nome) = Inr None)"
proof (intro conjI impI)
  assume "0 \<le> i \<and> i < int (length catalogo)"
  then show "obter_template lower catalogo (Indice i) = Inr (Some (catalogo ! nat i))"
    by (simp add: obter_template_def)
next
  assume "i < 0 \<or> int (length catalogo) \<le> i"
  then show "obter_template lower catalogo (Indice i) = Inr None"
    by (auto simp: obter_template_def)
next
  assume "\<forall>t\<in>set catalogo. \<exists>s. map_of t k_nome = Some (JStr s)"
  then show "obter_template lower catalogo (Nome nome) =
        Inr (find (\<lambda>t. campo_lower lower t k_nome = Inr (lower nome)) catalogo)"
    by (simp add: obter_template_def obter_por_nome_find)
next
  assume a: "\<forall>t\<in>set catalogo. \<exists>s. map_of t k_nome = Some (JStr s) \<and> lower s \<noteq> lower nome"
  then have "\<forall>t\<in>set catalogo. \<exists>s. map_of t k_nome = Some (JStr s)"
    by blast
  then have "obter_template lower catalogo (Nome nome) =
        Inr (find (\<lambda>t. campo_lower lower t k_nome = Inr (lower nome)) catalogo)"
    by (simp add: obter_template_def obter_por_nome_find)
  moreover have "find (\<lambda>t. campo_lower lower t k_nome = Inr (lower nome)) catalogo = None"
    using a by (fastforce simp: find_None_iff campo_lower_def)
  ultimately show "obter_template lower catalogo (Nome nome) = Inr None"
    by simp
qed

text \<open>
  A catalog entry without the key \<^verbatim>\<open>nome\<close>: the comparison of the names raises
  \<^verbatim>\<open>KeyError\<close>, whatever name is asked for.
\<close>

theorem obter_template_busca_counterexample:
  "obter_template lower_latin1 [[(k_categoria, JStr (ustr ''x''))]] (Nome (ustr ''a''))
   = Inl (KeyError (ustr ''nome''))"
  by (simp add: obter_template_def campo_lower_def k_nome_def k_categoria_def ustr_def)

theorem obter_template_busca_witness:
  "obter_template lower_latin1 catalogo_exemplo (Indice 1) = Inr (Some (catalogo_exemplo ! 1))
   \<and> obter_template lower_latin1 catalogo_exemplo (Indice (- 1)) = Inr None
   \<and> obter_template lower_latin1 catalogo_exemplo (Indice 2) = Inr None
   \<and> obter_template lower_latin1 catalogo_exemplo (Nome (ustr ''RESUMO''))
       = Inr (Some (catalogo_exemplo ! 0))
   \<and> obter_template lower_latin1 catalogo_exemplo (Nome (ustr ''Tradutor'')) = Inr None"
proof -
  have wf: "\<forall>t\<in>set catalogo_exemplo. \<exists>s. map_of t k_nome = Some (JStr s)"
    by (simp add: exemplo_eval)
  have nomatch: "\<forall>t\<in>set catalogo_exemplo. \<exists>s. map_of t k_nome = Some (JStr s)
                   \<and> lower_latin1 s \<noteq> lower_latin1 (ustr ''Tradutor'')"
    by (simp add: exemplo_eval)
  have f: "find (\<lambda>t. campo_lower lower_latin1 t k_nome = Inr (lower_latin1 (ustr ''RESUMO'')))
             catalogo_exemplo = Some (catalogo_exemplo ! 0)"
    by (simp add: exemplo_eval campo_lower_def)
  have len: "length catalogo_exemplo = 2"
    by (simp add: catalogo_exemplo_def)
  from obter_template_busca [of 1 catalogo_exemplo lower_latin1]
  have 1: "obter_template lower_latin1 catalogo_exemplo (Indice 1)
           = Inr (Some (catalogo_exemplo ! 1))"
    using len by simp
  from obter_template_busca [of "- 1" catalogo_exemplo lower_latin1]
  have 2: "obter_template lower_latin1 catalogo_exemplo (Indice (- 1)) = Inr None"
    by simp
  from obter_template_busca [of 2 catalogo_exemplo lower_latin1]
  have 3: "obter_template lower_latin1 catalogo_exemplo (Indice 2) = Inr None"
    using len by simp
  from obter_template_busca [of 0 catalogo_exemplo lower_latin1 "ustr ''RESUMO''"] wf f
  have 4: "obter_template lower_latin1 catalogo_exemplo (Nome (ustr ''RESUMO''))
           = Inr (Some (catalogo_exemplo ! 0))"
    by simp
  from obter_template_busca [of 0 catalogo_exemplo lower_latin1 "ustr ''Tradutor''"] nomatch
  have 5: "obter_template lower_latin1 catalogo_exemplo (Nome (ustr ''Tradutor'')) = Inr None"
    by blast
  from 1 2 3 4 5 show ?thesis by blast
qed

subsection \<open>C8: the category is compared without regard to case\<close>

text \<open>
  C8, for a catalog whose templates have a category. On every catalog, two
  categories with the same lower-casing, that is, two that differ in letter case
  only, give the same result of \<^verbatim>\<open>obter_template_por_categoria\<close>. On a catalog in
  which every template has a text under \<^verbatim>\<open>categoria\<close>, a category that is the
  category of no template gives the empty list, and the result is in general the
  templates whose lower-cased category equals the lower-cased argument, in the order
  of the catalog.
\<close>

theorem obter_template_por_categoria_caixa:
  "(lower c1 = lower c2 \<longrightarrow>
      obter_template_por_categoria lower catalogo c1
      = obter_template_por_categoria lower catalogo c2)
   \<and> ((\<forall>t\<in>set catalogo. \<exists>s. map_of t k_categoria = Some (JStr s) \<and> lower s \<noteq> lower c) \<longrightarrow>
      obter_template_por_categoria lower catalogo c = Inr [])
   \<and> ((\<forall>t\<in>set catalogo. \<exists>s. map_of t k_categoria = Some (JStr s)) \<longrightarrow>
      obter_template_por_categoria lower catalogo c =
        Inr (filter (\<lambda>t. campo_lower lower t k_categoria = Inr (lower c)) catalogo))"
  using obter_template_por_categoria_lower [of lower c1 c2 catalogo]
    obter_template_por_categoria_none [of catalogo lower c]
    obter_template_por_categoria_filter [of catalogo lower c]
  by blast

text \<open>
  A catalog entry without the key \<^verbatim>\<open>categoria\<close>: the comprehension raises
  \<^verbatim>\<open>KeyError\<close> instead of returning the empty list.
\<close>

theorem obter_template_por_categoria_caixa_counterexample:
  "obter_template_por_categoria lower_latin1 [[(k_nome, JStr (ustr ''x''))]] (ustr ''a'')
   = Inl (KeyError (ustr ''categoria''))"
  by (simp add: campo_lower_def k_nome_def k_categoria_def ustr_def)

theorem obter_template_por_categoria_caixa_witness:
  "obter_template_por_categoria lower_latin1 catalogo_exemplo (ustr ''T'' @ [201] @ ustr ''CNICO'')
     = obter_template_por_categoria lower_latin1 catalogo_exemplo (ustr ''t'' @ [233] @ ustr ''cnico'')
   \<and> obter_template_por_categoria lower_latin1 catalogo_exemplo (ustr ''t'' @ [233] @ ustr ''cnico'')
     = Inr [catalogo_exemplo ! 0]
   \<and> obter_template_por_categoria lower_latin1 catalogo_exemplo (ustr ''pesquisa'') = Inr []"
proof -
  have same: "lower_latin1 (ustr ''T'' @ [201] @ ustr ''CNICO'')
              = lower_latin1 (ustr ''t'' @ [233] @ ustr ''cnico'')"
    by (simp add: exemplo_eval)
  have nomatch: "\<forall>t\<in>set catalogo_exemplo. \<exists>s. map_of t k_categoria = Some (JStr s)
                   \<and> lower_latin1 s \<noteq> lower_latin1 (ustr ''pesquisa'')"
    by (simp add: exemplo_eval)
  have wf: "\<forall>t\<in>set catalogo_exemplo. \<exists>s. map_of t k_categoria = Some (JStr s)"
    by (simp add: exemplo_eval)
  have f: "filter (\<lambda>t. campo_lower lower_latin1 t k_categoria
                         = Inr (lower_latin1 (ustr ''t'' @ [233] @ ustr ''cnico'')))
             catalogo_exemplo = [catalogo_exemplo ! 0]"
    by (simp add: exemplo_eval campo_lower_def)
  from obter_template_por_categoria_caixa
         [of lower_latin1 "ustr ''T'' @ [201] @ ustr ''CNICO''"
             "ustr ''t'' @ [233] @ ustr ''cnico''" catalogo_exemplo "ustr ''pesquisa''"]
       same nomatch
  have 1: "obter_template_por_categoria lower_latin1 catalogo_exemplo
             (ustr ''T'' @ [201] @ ustr ''CNICO'')
           = obter_template_por_categoria lower_latin1 catalogo_exemplo
               (ustr ''t'' @ [233] @ ustr ''cnico'')"
    and 3: "obter_template_por_categoria lower_latin1 catalogo_exemplo (ustr ''pesquisa'')
            = Inr []"
    by blast+
  from obter_template_por_categoria_caixa
         [of lower_latin1 "[]" "[]" catalogo_exemplo "ustr ''t'' @ [233] @ ustr ''cnico''"] wf f
  have 2: "obter_template_por_categoria lower_latin1 catalogo_exemplo
             (ustr ''t'' @ [233] @ ustr ''cnico'') = Inr [catalogo_exemplo ! 0]"
    by simp
  from 1 2 3 show ?thesis by blast
qed

subsection \<open>C9: no template, no format\<close>

text \<open>
  C9. For \<^verbatim>\<open>None\<close>, for the empty dictionary and for a dictionary without the key
  \<^verbatim>\<open>template\<close>, \<^verbatim>\<open>preencher_template\<close> returns \<^verbatim>\<open>Template invalido.\<close>, whatever
  the values are.
\<close>

theorem preencher_template_invalido:
  "preencher_template None valores = Inr template_invalido
   \<and> preencher_template (Some []) valores = Inr template_invalido
   \<and> (map_of t k_template = None \<longrightarrow> preencher_template (Some t) valores = Inr template_invalido)"
  by (simp add: preencher_template_def)

theorem preencher_template_invalido_witness:
  "preencher_template (Some [(k_nome, JStr (ustr ''Resumo''))]) [(ustr ''a'', ustr ''b'')]
   = Inr (ustr ''Template inv'' @ [225] @ ustr ''lido.'')"
  using preencher_template_invalido [where t = "[(k_nome, JStr (ustr ''Resumo''))]"
      and valores = "[(ustr ''a'', ustr ''b'')]"]
  by (simp add: k_nome_def k_template_def ustr_def template_invalido_def)

subsection \<open>C10: the original text stays in the result\<close>

text \<open>
  C10. The result of \<^verbatim>\<open>otimizar_prompt\<close> is written out for each branch. For fewer
  than 10 words it is the text followed by the fixed suffix, so it starts with the
  text. For 10 to 29 words it is the heading \<^verbatim>\<open># INSTRUCAO\<close>, the text right behind
  it and the fixed checklist. For 30 words or more it is the heading of the main
  objective, the first line of the text, the fixed context and quality sections and
  at last the heading \<^verbatim>\<open># PROMPT ORIGINAL\<close> with the text, so it ends with that
  heading and the text. In every branch the result holds the text as one block.
\<close>

theorem otimizar_prompt_contem_original:
  "(length (split_py p) < 10 \<longrightarrow>
      otimizar_prompt p = p @ expansao_sufixo \<and> prefix p (otimizar_prompt p))
   \<and> (10 \<le> length (split_py p) \<and> length (split_py p) < 30 \<longrightarrow>
      otimizar_prompt p = instrucao_titulo @ p @ formato_desejado)
   \<and> (30 \<le> length (split_py p) \<longrightarrow>
      otimizar_prompt p =
        objetivo_principal_titulo @ takeWhile (\<lambda>c. c \<noteq> 10) p @ contexto_titulo
        @ contexto_refinado @ parametros_qualidade @ prompt_original_titulo @ p
      \<and> suffix (prompt_original_titulo @ p) (otimizar_prompt p))
   \<and> sublist p (otimizar_prompt p)
   \<and> prefix p (expandir_prompt p)
   \<and> (\<exists>resto. estruturar_prompt p = instrucao_titulo @ p @ resto)
   \<and> suffix (prompt_original_titulo @ p) (refinar_prompt p)"
proof -
  define inicio where "inicio =
    objetivo_principal_titulo @ takeWhile (\<lambda>c. c \<noteq> 10) p
    @ contexto_titulo @ contexto_refinado @ parametros_qualidade"
  have r: "refinar_prompt p = inicio @ (prompt_original_titulo @ p)"
    by (simp add: refinar_prompt_eq inicio_def)
  have 1: "prefix p (expandir_prompt p)"
    by (simp add: expandir_prompt_def)
  have 2: "\<exists>resto. estruturar_prompt p = instrucao_titulo @ p @ resto"
    by (simp add: estruturar_prompt_def)
  have 3: "suffix (prompt_original_titulo @ p) (refinar_prompt p)"
    unfolding r by (simp add: suffix_def)
  have a: "sublist p (expandir_prompt p)"
    using 1 by (rule prefix_imp_sublist)
  have b: "sublist p (estruturar_prompt p)"
    unfolding estruturar_prompt_def by (rule sublist_appendI)
  have "refinar_prompt p = (inicio @ prompt_original_titulo) @ p @ []"
    unfolding r by simp
  then have c: "sublist p (refinar_prompt p)"
    by (simp only: sublist_appendI)
  have s: "sublist p (otimizar_prompt p)"
    using a b c by (simp add: otimizar_prompt_def Let_def)
  have short: "otimizar_prompt p = p @ expansao_sufixo \<and> prefix p (otimizar_prompt p)"
    if "length (split_py p) < 10"
    using that by (simp add: otimizar_prompt_def expandir_prompt_def)
  have medium: "otimizar_prompt p = instrucao_titulo @ p @ formato_desejado"
    if "10 \<le> length (split_py p) \<and> length (split_py p) < 30"
    using that by (simp add: otimizar_prompt_def estruturar_prompt_def)
  have o: "otimizar_prompt p = refinar_prompt p" if "30 \<le> length (split_py p)"
    using that by (simp add: otimizar_prompt_def)
  have long: "otimizar_prompt p =
        objetivo_principal_titulo @ takeWhile (\<lambda>c. c \<noteq> 10) p @ contexto_titulo
        @ contexto_refinado @ parametros_qualidade @ prompt_original_titulo @ p
      \<and> suffix (prompt_original_titulo @ p) (otimizar_prompt p)"
    if "30 \<le> length (split_py p)"
    using o [OF that] 3 by (simp add: refinar_prompt_eq)
  from short medium long s 1 2 3 show ?thesis by blast
qed

theorem otimizar_prompt_contem_original_witness:
  "otimizar_prompt texto_9 = texto_9 @ expansao_sufixo
   \<and> otimizar_prompt texto_10 = instrucao_titulo @ texto_10 @ formato_desejado
   \<and> otimizar_prompt texto_30 =
        objetivo_principal_titulo @ texto_30 @ contexto_titulo
        @ contexto_refinado @ parametros_qualidade @ prompt_original_titulo @ texto_30
   \<and> suffix (prompt_original_titulo @ texto_30) (otimizar_prompt texto_30)"
proof -
  have 9: "length (split_py texto_9) < 10"
    by (simp add: texto_9_def split_py_def ustr_def isspace_def)
  have 10: "10 \<le> length (split_py texto_10) \<and> length (split_py texto_10) < 30"
    by (simp add: texto_10_def split_py_def ustr_def isspace_def)
  have 30: "30 \<le> length (split_py texto_30)"
    by (simp add: texto_30_def split_py_def ustr_def isspace_def)
  have l: "takeWhile (\<lambda>c. c \<noteq> 10) texto_30 = texto_30"
    by (simp add: texto_30_def ustr_def)
  from otimizar_prompt_contem_original [of texto_9] 9
  have a: "otimizar_prompt texto_9 = texto_9 @ expansao_sufixo"
    by blast
  from otimizar_prompt_contem_original [of texto_10] 10
  have b: "otimizar_prompt texto_10 = instrucao_titulo @ texto_10 @ formato_desejado"
    by blast
  from otimizar_prompt_contem_original [of texto_30] 30
  have c: "otimizar_prompt texto_30 =
        objetivo_principal_titulo @ takeWhile (\<lambda>c. c \<noteq> 10) texto_30 @ contexto_titulo
        @ contexto_refinado @ parametros_qualidade @ prompt_original_titulo @ texto_30
      \<and> suffix (prompt_original_titulo @ texto_30) (otimizar_prompt texto_30)"
    by blast
  from a b c show ?thesis
    unfolding l by blast
qed

end
